theory Spec2Isabelle
  imports Main "HOL-Library.Word"
begin

section \<open>JavaScript values\<close>

text \<open>
  A JavaScript string is a sequence of 16-bit code units. Literals of the source are
  ASCII and written \<open>js ''...''\<close>.
\<close>

type_synonym jstring = "16 word list"

definition js :: "string \<Rightarrow> jstring" where
  "js s = map of_char s"

text \<open>
  A number is observed by this program only through \<open>ToBoolean\<close> (in \<open>!document\<close>) and
  \<open>ToString\<close> (in \<open>Array.prototype.join\<close>), so it is represented by these two
  observations; no arithmetic is done on values that come out of a response body.
\<close>

record jsnumber =
  num_truthy :: bool
  num_text :: jstring

text \<open>
  The values \<open>JSON.parse\<close> produces, and \<open>undefined\<close> (the result of reading an absent
  property). An object is the list of its own properties.
\<close>

datatype jsval =
    JUndefined
  | JNull
  | JBool bool
  | JNum jsnumber
  | JStr jstring
  | JArr "jsval list"
  | JObj "(jstring \<times> jsval) list"

text \<open>
  What the program throws and catches:
  \<^item> a \<open>TypeError\<close> raised by the runtime;
  \<^item> the Error object with which a collaborator (an HTTP client call) rejects, with its
    \<open>message\<close> and its \<open>response\<close> property (\<open>JUndefined\<close> when there was no response);
  \<^item> such an Error object whose \<open>response.data\<close> holds a reference cycle, so that it cannot
    be written as JSON (the cycle runs through properties the program does not read;
    \<open>response\<close> shows the others);
  \<^item> any other value a collaborator throws: \<open>null\<close>, \<open>undefined\<close>, a string, a plain object.

  \<open>error_value\<close> is the thrown value as the program reads its properties.
\<close>

datatype thrown =
    TypeError
  | Failure (message: jstring) (response: jsval)
  | CyclicFailure (message: jstring) (response: jsval)
  | Raised jsval

fun error_value :: "thrown \<Rightarrow> jsval" where
  "error_value TypeError = JObj []"
| "error_value (Failure m r) = JObj [(js ''message'', JStr m), (js ''response'', r)]"
| "error_value (CyclicFailure m r) = JObj [(js ''message'', JStr m), (js ''response'', r)]"
| "error_value (Raised v) = v"

text \<open>\<open>JSON.stringify(error.response.data, null, 2)\<close>: it throws when the body holds a cycle.\<close>

fun cyclic_body :: "thrown \<Rightarrow> bool" where
  "cyclic_body (CyclicFailure m r) = True"
| "cyclic_body _ = False"

definition stringify_body :: "thrown \<Rightarrow> thrown + unit" where
  "stringify_body err = (if cyclic_body err then Inl TypeError else Inr ())"

fun nullish :: "jsval \<Rightarrow> bool" where
  "nullish JUndefined = True"
| "nullish JNull = True"
| "nullish _ = False"

text \<open>
  \<open>v.name\<close>, for the property names this program reads (\<open>response\<close>, \<open>data\<close>, \<open>_type\<close>,
  \<open>errorIdentifier\<close>, \<open>_embedded\<close>, \<open>errors\<close>, \<open>details\<close>, \<open>attribute\<close>, \<open>content\<close>,
  \<open>text\<close>), none of which lives on a prototype: reading from \<open>undefined\<close> or \<open>null\<close> throws,
  an object answers with its own property, every other value with \<open>undefined\<close>.
\<close>

fun get_prop :: "jsval \<Rightarrow> jstring \<Rightarrow> thrown + jsval" where
  "get_prop JUndefined n = Inl TypeError"
| "get_prop JNull n = Inl TypeError"
| "get_prop (JObj kvs) n = Inr (case map_of kvs n of None \<Rightarrow> JUndefined | Some v \<Rightarrow> v)"
| "get_prop _ n = Inr JUndefined"

text \<open>\<open>v?.name\<close>: \<open>undefined\<close> when \<open>v\<close> is \<open>undefined\<close> or \<open>null\<close>.\<close>

fun opt_prop :: "jsval \<Rightarrow> jstring \<Rightarrow> jsval" where
  "opt_prop (JObj kvs) n = (case map_of kvs n of None \<Rightarrow> JUndefined | Some v \<Rightarrow> v)"
| "opt_prop _ n = JUndefined"

text \<open>
  \<open>ToString\<close>. An array is joined with commas, \<open>undefined\<close> and \<open>null\<close> elements giving the
  empty string; a plain object gives \<open>[object Object]\<close>, unless it has an own property
  \<open>toString\<close>, which (parsed from JSON) is not callable, so that the conversion throws.
\<close>

fun intercalate :: "'a list \<Rightarrow> 'a list list \<Rightarrow> 'a list" where
  "intercalate sep [] = []"
| "intercalate sep [x] = x"
| "intercalate sep (x # y # ys) = x @ sep @ intercalate sep (y # ys)"

fun sequence_e :: "('e + 'a) list \<Rightarrow> 'e + 'a list" where
  "sequence_e [] = Inr []"
| "sequence_e (Inl e # rs) = Inl e"
| "sequence_e (Inr x # rs) = (case sequence_e rs of Inl e \<Rightarrow> Inl e | Inr xs \<Rightarrow> Inr (x # xs))"

fun to_string :: "jsval \<Rightarrow> thrown + jstring" where
  "to_string JUndefined = Inr (js ''undefined'')"
| "to_string JNull = Inr (js ''null'')"
| "to_string (JBool b) = Inr (js (if b then ''true'' else ''false''))"
| "to_string (JNum n) = Inr (num_text n)"
| "to_string (JStr s) = Inr s"
| "to_string (JArr xs) =
     (case sequence_e (map (\<lambda>x. if nullish x then Inr [] else to_string x) xs) of
        Inl t \<Rightarrow> Inl t
      | Inr ss \<Rightarrow> Inr (intercalate (js '','') ss))"
| "to_string (JObj kvs) =
     (if map_of kvs (js ''toString'') \<noteq> None then Inl TypeError else Inr (js ''[object Object]''))"

text \<open>
  \<open>v == lit\<close> for a string literal \<open>lit\<close> that is not numeric (\<open>ToNumber\<close> gives NaN), as
  all literals compared in this program are: a string is compared as it is, a number or
  a boolean is never equal, an array or object is converted to a string first.
\<close>

fun loose_eq_lit :: "jsval \<Rightarrow> jstring \<Rightarrow> thrown + bool" where
  "loose_eq_lit (JStr s) lit = Inr (s = lit)"
| "loose_eq_lit (JArr xs) lit =
     (case to_string (JArr xs) of Inl t \<Rightarrow> Inl t | Inr s \<Rightarrow> Inr (s = lit))"
| "loose_eq_lit (JObj kvs) lit =
     (case to_string (JObj kvs) of Inl t \<Rightarrow> Inl t | Inr s \<Rightarrow> Inr (s = lit))"
| "loose_eq_lit _ lit = Inr False"

text \<open>
  The values a \<open>for ... of\<close> loop visits: the elements of an array, the code points of a
  string (a surrogate pair is one step); nothing else here is iterable.
\<close>

definition is_high_surrogate :: "16 word \<Rightarrow> bool" where
  "is_high_surrogate c \<longleftrightarrow> 0xD800 \<le> c \<and> c \<le> 0xDBFF"

definition is_low_surrogate :: "16 word \<Rightarrow> bool" where
  "is_low_surrogate c \<longleftrightarrow> 0xDC00 \<le> c \<and> c \<le> 0xDFFF"

fun code_points :: "jstring \<Rightarrow> jstring list" where
  "code_points [] = []"
| "code_points [c] = [[c]]"
| "code_points (c # d # cs) =
     (if is_high_surrogate c \<and> is_low_surrogate d then [c, d] # code_points cs
      else [c] # code_points (d # cs))"

fun iterate :: "jsval \<Rightarrow> thrown + jsval list" where
  "iterate (JArr xs) = Inr xs"
| "iterate (JStr s) = Inr (map JStr (code_points s))"
| "iterate _ = Inl TypeError"

section \<open>The error classifier\<close>

text \<open>One classified error: \<open>{ error: ..., details: ... }\<close>.\<close>

record classified =
  error :: jsval
  details :: jsval

definition MultipleErrors :: jstring where
  "MultipleErrors = js ''urn:openproject-org:api:v3:errors:MultipleErrors''"

definition PropertyConstraintViolation :: jstring where
  "PropertyConstraintViolation = js ''urn:openproject-org:api:v3:errors:PropertyConstraintViolation''"

text \<open>\<open>{ response: { data: subError } }\<close>, the argument of the recursive call.\<close>

definition wrap_data :: "jsval \<Rightarrow> jsval" where
  "wrap_data d = JObj [(js ''response'', JObj [(js ''data'', d)])]"

text \<open>\<open>e?.response?.data\<close>.\<close>

definition response_data :: "jsval \<Rightarrow> jsval" where
  "response_data e = opt_prop (opt_prop e (js ''response'')) (js ''data'')"

text \<open>\<open>e.response.data\<close>, which throws where a step is \<open>undefined\<close> or \<open>null\<close>.\<close>

definition strict_data :: "jsval \<Rightarrow> thrown + jsval" where
  "strict_data e =
     (case get_prop e (js ''response'') of Inl t \<Rightarrow> Inl t | Inr r \<Rightarrow> get_prop r (js ''data''))"

text \<open>
  The loop \<open>for (let subError of ...) errors.push(...getErrors(...))\<close>: the results in
  order, up to the first call that throws.
\<close>

fun push_all :: "(thrown + 'a list) list \<Rightarrow> thrown + 'a list" where
  "push_all [] = Inr []"
| "push_all (Inl t # rs) = Inl t"
| "push_all (Inr xs # rs) = (case push_all rs of Inl t \<Rightarrow> Inl t | Inr ys \<Rightarrow> Inr (xs @ ys))"

lemma size_map_of: "map_of kvs n = Some (v::jsval) \<Longrightarrow> size v < size (JObj kvs)"
  by (induction kvs) (auto split: if_splits)

lemma size_get_prop: "get_prop v n = Inr x \<Longrightarrow> size x \<le> size v"
  by (cases v) (auto split: option.splits dest: size_map_of less_imp_le)

lemma size_get_prop_strict: "get_prop v n = Inr x \<Longrightarrow> x \<noteq> JUndefined \<Longrightarrow> size x < size v"
  by (cases v) (auto split: option.splits dest: size_map_of)

lemma size_iterate:
  assumes "get_prop emb n = Inr errs" "iterate errs = Inr subs" "sub \<in> set subs"
  shows "size sub < size emb"
proof (cases errs)
  case (JArr xs)
  with assms have "size sub < size errs" by (auto simp: less_Suc_eq_le size_list_estimation')
  moreover have "size errs \<le> size emb" using assms(1) by (rule size_get_prop)
  ultimately show ?thesis by simp
next
  case (JStr s)
  with assms have "size sub = 0" by auto
  moreover have "size errs < size emb" using assms(1) JStr by (auto dest: size_get_prop_strict)
  ultimately show ?thesis by simp
qed (use assms in auto)

lemma response_data_wrap: "response_data (wrap_data d) = d"
  by (simp add: response_data_def wrap_data_def)

lemma opt_prop_defined: "opt_prop v n \<noteq> JUndefined \<Longrightarrow> get_prop v n = Inr (opt_prop v n)"
  by (cases v) auto

lemma opt_prop_defined_obj: "opt_prop v n \<noteq> JUndefined \<Longrightarrow> \<exists>kvs. v = JObj kvs"
  by (cases v) auto

lemma strict_data_eq:
  assumes "opt_prop (response_data e) n \<noteq> JUndefined"
  shows "strict_data e = Inr (response_data e)"
proof -
  from assms have d: "response_data e \<noteq> JUndefined" by auto
  then have r: "opt_prop e (js ''response'') \<noteq> JUndefined"
    unfolding response_data_def by auto
  show ?thesis
    unfolding strict_data_def response_data_def
    using opt_prop_defined [OF r] opt_prop_defined [OF d [unfolded response_data_def]]
    by simp
qed

text \<open>\<open>getErrors\<close> (src/index.js, lines 62 to 75).\<close>

function getErrors :: "jsval \<Rightarrow> thrown + classified list" where
  "getErrors e =
     (case loose_eq_lit (opt_prop (response_data e) (js ''_type'')) (js ''Error'') of
        Inl t \<Rightarrow> Inl t
      | Inr is_error \<Rightarrow>
          if \<not> is_error then Inr []
          else
            (case strict_data e of Inl t \<Rightarrow> Inl t | Inr d \<Rightarrow>
             (case get_prop d (js ''errorIdentifier'') of Inl t \<Rightarrow> Inl t | Inr ident \<Rightarrow>
              (case loose_eq_lit ident MultipleErrors of
                 Inl t \<Rightarrow> Inl t
               | Inr is_multiple \<Rightarrow>
                   if is_multiple then
                     (case get_prop d (js ''_embedded'') of Inl t \<Rightarrow> Inl t | Inr emb \<Rightarrow>
                      (case get_prop emb (js ''errors'') of Inl t \<Rightarrow> Inl t | Inr errs \<Rightarrow>
                       (case iterate errs of Inl t \<Rightarrow> Inl t | Inr subs \<Rightarrow>
                          push_all (map (\<lambda>subError. getErrors (wrap_data subError)) subs))))
                   else
                     (case get_prop d (js ''_embedded'') of Inl t \<Rightarrow> Inl t | Inr emb \<Rightarrow>
                      (case get_prop emb (js ''details'') of Inl t \<Rightarrow> Inl t | Inr det \<Rightarrow>
                         Inr [\<lparr>error = ident, details = det\<rparr>]))))))"
  by pat_completeness auto
termination
proof (relation "measure (\<lambda>e. size (response_data e))")
  show "wf (measure (\<lambda>e. size (response_data e)))" by simp
next
  fix e :: jsval and is_error d ident is_multiple emb errs subs sub
  assume ty: "loose_eq_lit (opt_prop (response_data e) (js ''_type'')) (js ''Error'') = Inr is_error"
    and "\<not> \<not> is_error"
    and d: "strict_data e = Inr d"
    and emb: "get_prop d (js ''_embedded'') = Inr emb"
    and errs: "get_prop emb (js ''errors'') = Inr errs"
    and subs: "iterate errs = Inr subs"
    and sub: "sub \<in> set subs"
  from ty \<open>\<not> \<not> is_error\<close> have "opt_prop (response_data e) (js ''_type'') \<noteq> JUndefined"
    by auto
  with d have "d = response_data e" by (simp add: strict_data_eq)
  moreover have "size sub < size emb" using errs subs sub by (rule size_iterate)
  moreover have "size emb \<le> size d" using emb by (rule size_get_prop)
  ultimately show "(wrap_data sub, e) \<in> measure (\<lambda>e. size (response_data e))"
    by (simp add: response_data_wrap)
qed

declare getErrors.simps [simp del]

section \<open>Rendering a structured document as text\<close>

text \<open>\<open>ToBoolean\<close>.\<close>

fun truthy :: "jsval \<Rightarrow> bool" where
  "truthy JUndefined = False"
| "truthy JNull = False"
| "truthy (JBool b) = b"
| "truthy (JNum n) = num_truthy n"
| "truthy (JStr s) = (s \<noteq> [])"
| "truthy _ = True"

text \<open>
  The code units \<open>String.prototype.trim\<close> removes: the white space and line terminator
  characters of the language.
\<close>

definition is_space :: "16 word \<Rightarrow> bool" where
  "is_space c \<longleftrightarrow>
     c \<in> {0x0009, 0x000A, 0x000B, 0x000C, 0x000D, 0x0020, 0x00A0, 0x1680,
          0x2028, 0x2029, 0x202F, 0x205F, 0x3000, 0xFEFF}
     \<or> (0x2000 \<le> c \<and> c \<le> 0x200A)"

definition trim :: "jstring \<Rightarrow> jstring" where
  "trim s = rev (dropWhile is_space (rev (dropWhile is_space s)))"

text \<open>
  \<open>xs.map(f)\<close> where \<open>xs\<close> came out of a response body: only an array has a \<open>map\<close>
  method; on \<open>undefined\<close> and \<open>null\<close> reading the property throws, on anything else
  the call of a non-function does.
\<close>

fun array_elements :: "jsval \<Rightarrow> thrown + jsval list" where
  "array_elements (JArr xs) = Inr xs"
| "array_elements _ = Inl TypeError"

text \<open>\<open>xs.join(sep)\<close> on an array of values.\<close>

definition join :: "jstring \<Rightarrow> jsval list \<Rightarrow> thrown + jstring" where
  "join sep xs =
     (case sequence_e (map (\<lambda>x. if nullish x then Inr [] else to_string x) xs) of
        Inl t \<Rightarrow> Inl t
      | Inr ss \<Rightarrow> Inr (intercalate sep ss))"

text \<open>
  The callback of line 393: \<open>block.content?.map((c) => c.text).join("") || ""\<close>. The
  optional chain ends the whole expression with \<open>undefined\<close> when \<open>block.content\<close> is
  \<open>undefined\<close> or \<open>null\<close>.
\<close>

definition block_text :: "jsval \<Rightarrow> thrown + jstring" where
  "block_text block =
     (case get_prop block (js ''content'') of
        Inl t \<Rightarrow> Inl t
      | Inr c \<Rightarrow>
          if nullish c then Inr []
          else
            (case array_elements c of
               Inl t \<Rightarrow> Inl t
             | Inr inlines \<Rightarrow>
                 (case sequence_e (map (\<lambda>c. get_prop c (js ''text'')) inlines) of
                    Inl t \<Rightarrow> Inl t
                  | Inr texts \<Rightarrow> join [] texts)))"

text \<open>The body of the \<open>try\<close> of \<open>convertAtlassianDocumentToText\<close> (lines 391 to 397).\<close>

definition walk_document :: "jsval \<Rightarrow> thrown + jstring" where
  "walk_document document =
     (case get_prop document (js ''content'') of
        Inl t \<Rightarrow> Inl t
      | Inr c \<Rightarrow>
          if truthy c then
            (case array_elements c of
               Inl t \<Rightarrow> Inl t
             | Inr blocks \<Rightarrow>
                 (case sequence_e (map block_text blocks) of
                    Inl t \<Rightarrow> Inl t
                  | Inr ss \<Rightarrow> Inr (trim (intercalate (js [CHR 0x0A]) ss))))
          else Inr [])"

text \<open>\<open>convertAtlassianDocumentToText\<close> (lines 386 to 402).\<close>

definition convertAtlassianDocumentToText :: "jsval \<Rightarrow> jstring" where
  "convertAtlassianDocumentToText document =
     (if \<not> truthy document then []
      else case document of
        JStr s \<Rightarrow> s
      | _ \<Rightarrow> (case walk_document document of Inl t \<Rightarrow> [] | Inr s \<Rightarrow> s))"

text \<open>
  \<open>Buffer.from(s).toString("utf8")\<close> (lines 188 to 190): the string is encoded as UTF-8
  and decoded again. A surrogate pair survives; a surrogate without its partner is
  written as the replacement character U+FFFD.
\<close>

fun utf8_roundtrip :: "jstring \<Rightarrow> jstring" where
  "utf8_roundtrip [] = []"
| "utf8_roundtrip [c] =
     (if is_high_surrogate c \<or> is_low_surrogate c then [0xFFFD] else [c])"
| "utf8_roundtrip (c # d # cs) =
     (if is_high_surrogate c \<and> is_low_surrogate d then c # d # utf8_roundtrip cs
      else if is_high_surrogate c \<or> is_low_surrogate c then 0xFFFD # utf8_roundtrip (d # cs)
      else c # utf8_roundtrip (d # cs))"

section \<open>The data of a migration run\<close>

text \<open>
  What the engine holds as the identifier of a target user: the number stored in the user
  mapping, or, when the account identifier of the source user is the name of a property
  of \<open>Object.prototype\<close> and the mapping has no entry of its own under it, that inherited
  property (a function, or the prototype itself for \<open>__proto__\<close>).
\<close>

datatype user_id = UserId nat | PrototypeProperty jstring
type_synonym work_package_id = nat
type_synonym project_id = nat

record jira_user =
  accountId :: jstring
  displayName :: jstring

record attachment =
  filename :: jstring
  content :: jstring

record comment =
  author :: jira_user
  created :: jstring
  body :: jsval

text \<open>
  A source issue as the reader of the source service delivers it: \<open>issue.key\<close> and the
  fields of \<open>issue.fields\<close> that the engine reads (\<open>issuetype\<close> and \<open>status\<close> are the
  \<open>name\<close>s of these fields, \<open>comments\<close> is \<open>comment.comments\<close>).
  \<open>assignee\<close> and \<open>creator\<close> are \<open>None\<close> when the field is \<open>null\<close>; \<open>attachment\<close> and
  \<open>comments\<close> are empty when the field is absent (the source tests \<open>x && x.length > 0\<close>);
  \<open>watchCount\<close> is 0 when \<open>watches\<close> is absent.
\<close>

record issue =
  key :: jstring
  summary :: jstring
  description :: jsval
  issuetype :: jstring
  status :: jstring
  priority :: jsval
  assignee :: "jira_user option"
  creator :: "jira_user option"
  attachment :: "attachment list"
  comments :: "comment list"
  watchCount :: nat

record work_package =
  wp_id :: work_package_id

text \<open>The payload of lines 184 to 227; a link is stored as the identifier its href ends in.\<close>

record payload =
  subject :: jstring
  description_raw :: jstring
  type_link :: nat
  status_link :: nat
  priority_link :: nat
  project_link :: project_id
  customField :: jstring
  assignee_link :: "user_id option"
  responsible_link :: "user_id option"

text \<open>
  The calls the engine makes on its collaborators, in the order it makes them. The
  argument of \<open>addUserToProject\<close> is \<open>None\<close> for the property key \<open>"null"\<close>.
\<close>

datatype api_call =
    FindExistingWorkPackage jstring project_id
  | GetWorkPackageTypeId jstring
  | GetWorkPackageStatusId jstring
  | GetWorkPackagePriorityId jsval
  | CreateWorkPackage project_id payload
  | UpdateWorkPackage work_package_id payload
  | AddUserToProject "user_id option" project_id
  | GetExistingAttachments work_package_id
  | DownloadAttachment jstring jstring
  | UploadAttachment work_package_id jstring jstring
  | UnlinkSync jstring
  | GetExistingComments work_package_id
  | AddComment work_package_id jstring
  | GetIssueWatchers jstring
  | AddWatcher work_package_id user_id
  | RemoveTempDir

text \<open>The lines written to the console.\<close>

datatype console_line =
    NoJiraUser
  | FoundUser user_id jstring
  | NoUserMapping jstring
  | Processing jstring
  | Skipping jstring work_package_id
  | Updating work_package_id
  | Creating
  | AddingUsers "user_id option list"
  | RetryingCreate
  | Success
  | SkippingAttachment jstring
  | ProcessingAttachment jstring
  | SkippingComment
  | AddingComment
  | AddingWatchers
  | AddingUser user_id project_id
  | RetryingWatcher
  | ErrorProcessing jstring thrown
  | ErrorDetails jsval
  | MigrationSummary
  | TotalProcessed nat
  | Completed nat
  | Skipped nat
  | Errors nat

text \<open>
  The state of a run: the outside world \<open>world\<close> on which the collaborators act, the
  calls made and lines printed so far, and the variables of lines 144 to 147.
\<close>

record 'w run =
  world :: 'w
  calls :: "api_call list"
  console :: "console_line list"
  processed :: nat
  skipped :: nat
  errors :: nat
  issueToWorkPackageMap :: "jstring \<rightharpoonup> work_package_id"

text \<open>A collaborator call either returns or throws, and changes the world.\<close>

type_synonym ('a, 'w) extern = "'w \<Rightarrow> (thrown + 'a) \<times> 'w"

text \<open>
  The collaborators (modules \<open>openproject-client\<close> and \<open>jira-client\<close>, the file system,
  the locale), taken as parameters. Each returns the part of its result the engine reads:
  \<open>getExistingAttachments\<close> the \<open>fileName\<close>s, \<open>getExistingComments\<close> the \<open>comment.raw\<close>
  texts, \<open>getIssueWatchers\<close> the \<open>watchers\<close> list (an entry is \<open>None\<close> when it is \<open>null\<close>).
\<close>

record 'w collaborators =
  findExistingWorkPackage :: "jstring \<Rightarrow> project_id \<Rightarrow> (work_package option, 'w) extern"
  getWorkPackageTypeId :: "jstring \<Rightarrow> (nat, 'w) extern"
  getWorkPackageStatusId :: "jstring \<Rightarrow> (nat, 'w) extern"
  getWorkPackagePriorityId :: "jsval \<Rightarrow> (nat, 'w) extern"
  createWorkPackage :: "project_id \<Rightarrow> payload \<Rightarrow> (work_package, 'w) extern"
  updateWorkPackage :: "work_package_id \<Rightarrow> payload \<Rightarrow> (work_package, 'w) extern"
  addUserToProject :: "user_id option \<Rightarrow> project_id \<Rightarrow> (unit, 'w) extern"
  getExistingAttachments :: "work_package_id \<Rightarrow> (jstring list, 'w) extern"
  downloadAttachment :: "jstring \<Rightarrow> jstring \<Rightarrow> (unit, 'w) extern"
  uploadAttachment :: "work_package_id \<Rightarrow> jstring \<Rightarrow> jstring \<Rightarrow> (unit, 'w) extern"
  unlinkSync :: "jstring \<Rightarrow> (unit, 'w) extern"
  getExistingComments :: "work_package_id \<Rightarrow> (jstring list, 'w) extern"
  addComment :: "work_package_id \<Rightarrow> jstring \<Rightarrow> (unit, 'w) extern"
  getIssueWatchers :: "jstring \<Rightarrow> (jira_user option list, 'w) extern"
  addWatcher :: "work_package_id \<Rightarrow> user_id \<Rightarrow> (unit, 'w) extern"
  removeTempDir :: "(unit, 'w) extern"
  tempFilePath :: "jstring \<Rightarrow> jstring"
  toLocaleString :: "jstring \<Rightarrow> jstring"

text \<open>
  The arguments of \<open>migrateIssues\<close> and the values its lines 94 to 138 compute before
  the loop: the user mapping and the cache of work packages (read only when
  \<open>skipUpdates\<close> is set).
\<close>

record settings =
  openProjectId :: project_id
  skipUpdates :: bool
  mapResponsible :: bool
  userMapping :: "jstring \<rightharpoonup> nat"
  openProjectWorkPackagesCache :: "jstring \<rightharpoonup> work_package"

subsection \<open>Sequencing\<close>

type_synonym ('a, 'w) action = "'w run \<Rightarrow> (thrown + 'a) \<times> 'w run"

definition ret :: "'a \<Rightarrow> ('a, 'w) action" where
  "ret x s = (Inr x, s)"

definition throw :: "thrown \<Rightarrow> ('a, 'w) action" where
  "throw t s = (Inl t, s)"

definition and_then :: "('a, 'w) action \<Rightarrow> ('a \<Rightarrow> ('b, 'w) action) \<Rightarrow> ('b, 'w) action" where
  "and_then m f s = (case m s of (Inl t, s') \<Rightarrow> (Inl t, s') | (Inr x, s') \<Rightarrow> f x s')"

definition try_catch :: "('a, 'w) action \<Rightarrow> (thrown \<Rightarrow> ('a, 'w) action) \<Rightarrow> ('a, 'w) action" where
  "try_catch m h s = (case m s of (Inl t, s') \<Rightarrow> h t s' | (Inr x, s') \<Rightarrow> (Inr x, s'))"

definition lift :: "thrown + 'a \<Rightarrow> ('a, 'w) action" where
  "lift r s = (r, s)"

definition console_log :: "console_line \<Rightarrow> (unit, 'w) action" where
  "console_log l s = (Inr (), s\<lparr>console := console s @ [l]\<rparr>)"

definition call :: "api_call \<Rightarrow> ('a, 'w) extern \<Rightarrow> ('a, 'w) action" where
  "call c f s =
     (case f (world s) of (r, w) \<Rightarrow> (r, s\<lparr>world := w, calls := calls s @ [c]\<rparr>))"

fun for_each :: "'a list \<Rightarrow> ('a \<Rightarrow> (unit, 'w) action) \<Rightarrow> (unit, 'w) action" where
  "for_each [] f = ret ()"
| "for_each (x # xs) f = and_then (f x) (\<lambda>_. for_each xs f)"

definition modify :: "('w run \<Rightarrow> 'w run) \<Rightarrow> (unit, 'w) action" where
  "modify f s = (Inr (), f s)"

section \<open>The migration engine\<close>

text \<open>
  \<open>userMapping[accountId]\<close>, where \<open>userMapping\<close> is a plain object holding numeric
  identifiers as its own properties: an own property wins, otherwise the property is
  looked up on \<open>Object.prototype\<close>. The result is \<open>None\<close> when there is no such property
  (\<open>undefined\<close>).
\<close>

definition object_prototype_names :: "jstring list" where
  "object_prototype_names =
     map js [''constructor'', ''__defineGetter__'', ''__defineSetter__'', ''hasOwnProperty'',
             ''__lookupGetter__'', ''__lookupSetter__'', ''isPrototypeOf'',
             ''propertyIsEnumerable'', ''toString'', ''valueOf'', ''__proto__'',
             ''toLocaleString'']"

definition mapping_lookup :: "(jstring \<rightharpoonup> nat) \<Rightarrow> jstring \<Rightarrow> user_id option" where
  "mapping_lookup m k =
     (case m k of
        Some n \<Rightarrow> Some (UserId n)
      | None \<Rightarrow> if k \<in> set object_prototype_names then Some (PrototypeProperty k) else None)"

text \<open>\<open>ToBoolean\<close> of such a value: the number 0 is falsy, a function or object is truthy.\<close>

fun truthy_id :: "user_id \<Rightarrow> bool" where
  "truthy_id (UserId n) = (n \<noteq> 0)"
| "truthy_id (PrototypeProperty k) = True"

text \<open>\<open>getOpenProjectUserId\<close> (lines 42 to 60).\<close>

definition getOpenProjectUserId :: "settings \<Rightarrow> jira_user option \<Rightarrow> (user_id option, 'w) action" where
  "getOpenProjectUserId cfg jiraUser =
     (case jiraUser of
        None \<Rightarrow> and_then (console_log NoJiraUser) (\<lambda>_. ret None)
      | Some u \<Rightarrow>
          (case mapping_lookup (userMapping cfg) (accountId u) of
             Some openProjectUserId \<Rightarrow>
               if truthy_id openProjectUserId then
                 and_then (console_log (FoundUser openProjectUserId (displayName u)))
                   (\<lambda>_. ret (Some openProjectUserId))
               else and_then (console_log (NoUserMapping (displayName u))) (\<lambda>_. ret None)
           | None \<Rightarrow> and_then (console_log (NoUserMapping (displayName u))) (\<lambda>_. ret None)))"

text \<open>
  \<open>errors.map(...)\<close> of lines 241 to 246 and 337 to 342: the attribute of a property
  constraint violation, \<open>null\<close> for any other error.
\<close>

definition failing_attribute :: "classified \<Rightarrow> thrown + jsval" where
  "failing_attribute c =
     (case loose_eq_lit (error c) PropertyConstraintViolation of
        Inl t \<Rightarrow> Inl t
      | Inr is_violation \<Rightarrow>
          Inr (if is_violation then opt_prop (details c) (js ''attribute'') else JNull))"

definition failing_attributes :: "thrown \<Rightarrow> thrown + jsval list" where
  "failing_attributes e =
     (case getErrors (error_value e) of
        Inl t \<Rightarrow> Inl t
      | Inr errs \<Rightarrow> sequence_e (map failing_attribute errs))"

text \<open>\<open>errors.includes("...")\<close>.\<close>

definition array_includes :: "jsval list \<Rightarrow> string \<Rightarrow> bool" where
  "array_includes attrs name \<longleftrightarrow> JStr (js name) \<in> set attrs"

text \<open>
  \<open>Object.keys\<close> of an object whose properties were created by assigning to the given
  keys in the given order: the keys that are array indices in ascending order, then the
  others in order of creation. \<open>None\<close> is the key \<open>"null"\<close>; the key of a number is its
  decimal form, the key of an inherited property is its text (different for each).
\<close>

fun index_value :: "user_id option \<Rightarrow> nat" where
  "index_value (Some (UserId n)) = n"
| "index_value _ = 0"

fun is_array_index :: "user_id option \<Rightarrow> bool" where
  "is_array_index (Some (UserId n)) = (n < 4294967295)"
| "is_array_index _ = False"

definition object_keys :: "user_id option list \<Rightarrow> user_id option list" where
  "object_keys assigned =
     (let ks = rev (remdups (rev assigned))
      in sort_key index_value (filter is_array_index ks)
         @ filter (\<lambda>k. \<not> is_array_index k) ks)"

text \<open>The loop of lines 255 to 257.\<close>

definition addUsersToProject ::
  "'w collaborators \<Rightarrow> settings \<Rightarrow> user_id option list \<Rightarrow> (unit, 'w) action" where
  "addUsersToProject api cfg ids =
     for_each ids (\<lambda>id.
       call (AddUserToProject id (openProjectId cfg))
         (addUserToProject api id (openProjectId cfg)))"

text \<open>Creating a work package, lines 235 to 266.\<close>

definition createWithRemediation ::
  "'w collaborators \<Rightarrow> settings \<Rightarrow> payload \<Rightarrow> user_id option \<Rightarrow> user_id option
     \<Rightarrow> (work_package, 'w) action" where
  "createWithRemediation api cfg p assigneeId responsibleId =
     try_catch
       (call (CreateWorkPackage (openProjectId cfg) p) (createWorkPackage api (openProjectId cfg) p))
       (\<lambda>e.
          and_then (lift (failing_attributes e)) (\<lambda>attrs.
            if array_includes attrs ''assignee'' \<or> array_includes attrs ''responsible'' then
              (let ids = object_keys [responsibleId, assigneeId] in
               and_then (console_log (AddingUsers ids)) (\<lambda>_.
               and_then (addUsersToProject api cfg ids) (\<lambda>_.
               and_then (console_log RetryingCreate) (\<lambda>_.
               and_then (call (CreateWorkPackage (openProjectId cfg) p)
                  (createWorkPackage api (openProjectId cfg) p)) (\<lambda>workPackage.
               and_then (console_log Success) (\<lambda>_.
               ret workPackage))))))
            else throw e))"

text \<open>Adding a watcher, lines 331 to 354.\<close>

definition addWatcherWithRemediation ::
  "'w collaborators \<Rightarrow> settings \<Rightarrow> work_package_id \<Rightarrow> user_id \<Rightarrow> (unit, 'w) action" where
  "addWatcherWithRemediation api cfg wp watcherId =
     try_catch
       (call (AddWatcher wp watcherId) (addWatcher api wp watcherId))
       (\<lambda>e.
          and_then (lift (failing_attributes e)) (\<lambda>attrs.
            if array_includes attrs ''user'' then
              and_then (console_log (AddingUser watcherId (openProjectId cfg))) (\<lambda>_.
              and_then (call (AddUserToProject (Some watcherId) (openProjectId cfg))
                 (addUserToProject api (Some watcherId) (openProjectId cfg))) (\<lambda>_.
              and_then (console_log RetryingWatcher) (\<lambda>_.
              and_then (call (AddWatcher wp watcherId) (addWatcher api wp watcherId)) (\<lambda>_.
              console_log Success))))
            else throw e))"

text \<open>The payload, lines 184 to 227, in the order in which its parts are evaluated.\<close>

definition buildPayload ::
  "'w collaborators \<Rightarrow> settings \<Rightarrow> issue \<Rightarrow> user_id option \<Rightarrow> user_id option
     \<Rightarrow> (payload, 'w) action" where
  "buildPayload api cfg i assigneeId responsibleId =
     (let raw = utf8_roundtrip (convertAtlassianDocumentToText (description i)) in
      and_then (call (GetWorkPackageTypeId (issuetype i)) (getWorkPackageTypeId api (issuetype i))) (\<lambda>ty.
      and_then (call (GetWorkPackageStatusId (status i)) (getWorkPackageStatusId api (status i))) (\<lambda>st.
      and_then (call (GetWorkPackagePriorityId (priority i)) (getWorkPackagePriorityId api (priority i))) (\<lambda>pr.
      ret \<lparr>subject = summary i, description_raw = raw, type_link = ty, status_link = st,
           priority_link = pr, project_link = openProjectId cfg, customField = key i,
           assignee_link = assigneeId, responsible_link = responsibleId\<rparr>))))"

text \<open>
  Lines 173 to 268: the identities, the payload, and the update of the existing work
  package or the creation of a new one.
\<close>

definition upsert ::
  "'w collaborators \<Rightarrow> settings \<Rightarrow> issue \<Rightarrow> work_package option \<Rightarrow> (work_package, 'w) action" where
  "upsert api cfg i existingWorkPackage =
     and_then (if assignee i \<noteq> None then getOpenProjectUserId cfg (assignee i) else ret None)
       (\<lambda>assigneeId.
     and_then (if mapResponsible cfg \<and> creator i \<noteq> None
               then getOpenProjectUserId cfg (creator i) else ret None)
       (\<lambda>responsibleId.
     and_then (buildPayload api cfg i assigneeId responsibleId) (\<lambda>p.
       case existingWorkPackage of
         Some wp \<Rightarrow>
           and_then (console_log (Updating (wp_id wp))) (\<lambda>_.
             call (UpdateWorkPackage (wp_id wp) p) (updateWorkPackage api (wp_id wp) p))
       | None \<Rightarrow>
           and_then (console_log Creating) (\<lambda>_.
             createWithRemediation api cfg p assigneeId responsibleId))))"

text \<open>Attachments, lines 272 to 297.\<close>

definition syncAttachments ::
  "'w collaborators \<Rightarrow> issue \<Rightarrow> work_package \<Rightarrow> (unit, 'w) action" where
  "syncAttachments api i workPackage =
     (if attachment i \<noteq> [] then
        and_then (call (GetExistingAttachments (wp_id workPackage))
                    (getExistingAttachments api (wp_id workPackage))) (\<lambda>existingAttachmentNames.
          for_each (attachment i) (\<lambda>a.
            if filename a \<in> set existingAttachmentNames
            then console_log (SkippingAttachment (filename a))
            else
              and_then (console_log (ProcessingAttachment (filename a))) (\<lambda>_.
              and_then (call (DownloadAttachment (content a) (tempFilePath api (filename a)))
                 (downloadAttachment api (content a) (tempFilePath api (filename a)))) (\<lambda>_.
              and_then (call (UploadAttachment (wp_id workPackage) (tempFilePath api (filename a)) (filename a))
                 (uploadAttachment api (wp_id workPackage) (tempFilePath api (filename a)) (filename a))) (\<lambda>_.
              call (UnlinkSync (tempFilePath api (filename a)))
                 (unlinkSync api (tempFilePath api (filename a))))))))
      else ret ())"

text \<open>Comments, lines 299 to 322.\<close>

definition formatComment :: "'w collaborators \<Rightarrow> comment \<Rightarrow> jstring \<Rightarrow> jstring" where
  "formatComment api c commentText =
     displayName (author c) @ js '' wrote on '' @ toLocaleString api (created c)
       @ js ('':'' @ [CHR 0x0A]) @ commentText"

definition syncComments ::
  "'w collaborators \<Rightarrow> issue \<Rightarrow> work_package \<Rightarrow> (unit, 'w) action" where
  "syncComments api i workPackage =
     (if comments i \<noteq> [] then
        and_then (call (GetExistingComments (wp_id workPackage))
                    (getExistingComments api (wp_id workPackage))) (\<lambda>existingCommentTexts.
          for_each (comments i) (\<lambda>c.
            let commentText = convertAtlassianDocumentToText (body c) in
            if commentText \<noteq> [] then
              (let formattedComment = formatComment api c commentText in
               if formattedComment \<in> set existingCommentTexts
               then console_log SkippingComment
               else
                 and_then (console_log AddingComment) (\<lambda>_.
                   call (AddComment (wp_id workPackage) formattedComment)
                     (addComment api (wp_id workPackage) formattedComment)))
            else ret ()))
      else ret ())"

text \<open>Watchers, lines 324 to 357.\<close>

definition syncWatchers ::
  "'w collaborators \<Rightarrow> settings \<Rightarrow> issue \<Rightarrow> work_package \<Rightarrow> (unit, 'w) action" where
  "syncWatchers api cfg i workPackage =
     (if watchCount i > 0 then
        and_then (console_log AddingWatchers) (\<lambda>_.
        and_then (call (GetIssueWatchers (key i)) (getIssueWatchers api (key i))) (\<lambda>watchers.
          for_each watchers (\<lambda>watcher.
            and_then (getOpenProjectUserId cfg watcher) (\<lambda>watcherId.
              case watcherId of
                Some w \<Rightarrow> addWatcherWithRemediation api cfg (wp_id workPackage) w
              | None \<Rightarrow> ret ()))))
      else ret ())"

text \<open>Lines 272 to 357: the three of them, in this order.\<close>

definition syncSubEntities ::
  "'w collaborators \<Rightarrow> settings \<Rightarrow> issue \<Rightarrow> work_package \<Rightarrow> (unit, 'w) action" where
  "syncSubEntities api cfg i workPackage =
     and_then (syncAttachments api i workPackage) (\<lambda>_.
     and_then (syncComments api i workPackage) (\<lambda>_.
     syncWatchers api cfg i workPackage))"

text \<open>\<open>issueToWorkPackageMap.set(k, v)\<close>.\<close>

definition map_set :: "jstring \<Rightarrow> work_package_id \<Rightarrow> (unit, 'w) action" where
  "map_set k v = modify (\<lambda>s. s\<lparr>issueToWorkPackageMap := (issueToWorkPackageMap s)(k \<mapsto> v)\<rparr>)"

text \<open>Lines 153 to 162: the work package that already exists for the issue, if any.\<close>

definition lookupExisting ::
  "'w collaborators \<Rightarrow> settings \<Rightarrow> issue \<Rightarrow> (work_package option, 'w) action" where
  "lookupExisting api cfg i =
     (if skipUpdates cfg then ret (openProjectWorkPackagesCache cfg (key i))
      else call (FindExistingWorkPackage (key i) (openProjectId cfg))
             (findExistingWorkPackage api (key i) (openProjectId cfg)))"

text \<open>
  Lines 173 to 359, for an issue that is not skipped: the work package is created or
  updated, recorded in the map, its sub-entities are synchronized and \<open>processed\<close> is
  incremented.

  The body of the \<open>try\<close> of the loop, lines 151 to 359, follows. The \<open>continue\<close> of line 170
  ends it after \<open>skipped++\<close>.
\<close>

definition upsertAndSync ::
  "'w collaborators \<Rightarrow> settings \<Rightarrow> issue \<Rightarrow> work_package option \<Rightarrow> (unit, 'w) action" where
  "upsertAndSync api cfg i existingWorkPackage =
     and_then (upsert api cfg i existingWorkPackage) (\<lambda>workPackage.
     and_then (map_set (key i) (wp_id workPackage)) (\<lambda>_.
     and_then (syncSubEntities api cfg i workPackage) (\<lambda>_.
     modify (\<lambda>s. s\<lparr>processed := processed s + 1\<rparr>))))"

definition issueBody :: "'w collaborators \<Rightarrow> settings \<Rightarrow> issue \<Rightarrow> (unit, 'w) action" where
  "issueBody api cfg i =
     and_then (console_log (Processing (key i))) (\<lambda>_.
     and_then (lookupExisting api cfg i) (\<lambda>existingWorkPackage.
       case (if skipUpdates cfg then existingWorkPackage else None) of
         Some wp \<Rightarrow>
           and_then (console_log (Skipping (key i) (wp_id wp))) (\<lambda>_.
           and_then (map_set (key i) (wp_id wp)) (\<lambda>_.
           modify (\<lambda>s. s\<lparr>skipped := skipped s + 1\<rparr>)))
       | None \<Rightarrow> upsertAndSync api cfg i existingWorkPackage))"

text \<open>
  The \<open>catch\<close> of the loop, lines 360 to 369. It can throw itself: reading \<open>error.message\<close>
  throws when the value caught is \<open>null\<close> or \<open>undefined\<close>, and writing the response body as
  JSON throws when the body holds a cycle. The exception then leaves the loop.
\<close>

definition issueCatch :: "issue \<Rightarrow> thrown \<Rightarrow> (unit, 'w) action" where
  "issueCatch i err =
     and_then (lift (get_prop (error_value err) (js ''message''))) (\<lambda>_.
     and_then (console_log (ErrorProcessing (key i) err)) (\<lambda>_.
     and_then (let d = opt_prop (opt_prop (error_value err) (js ''response'')) (js ''data'')
               in if truthy d
                  then and_then (lift (stringify_body err)) (\<lambda>_. console_log (ErrorDetails d))
                  else ret ()) (\<lambda>_.
     modify (\<lambda>s. s\<lparr>errors := errors s + 1\<rparr>))))"

text \<open>One iteration of the loop of line 149.\<close>

definition processIssue :: "'w collaborators \<Rightarrow> settings \<Rightarrow> issue \<Rightarrow> (unit, 'w) action" where
  "processIssue api cfg i = try_catch (issueBody api cfg i) (issueCatch i)"

text \<open>The loop, lines 149 to 370.\<close>

definition processIssues :: "'w collaborators \<Rightarrow> settings \<Rightarrow> issue list \<Rightarrow> (unit, 'w) action" where
  "processIssues api cfg jiraIssues = for_each jiraIssues (processIssue api cfg)"

text \<open>The summary, lines 377 to 381.\<close>

definition printSummary :: "(unit, 'w) action" where
  "printSummary s =
     (Inr (), s\<lparr>console := console s @
        [MigrationSummary, TotalProcessed (processed s + skipped s), Completed (processed s),
         Skipped (skipped s), Errors (errors s)]\<rparr>)"

text \<open>The variables of lines 144 to 147 at the start of the loop.\<close>

definition start :: "'w \<Rightarrow> 'w run" where
  "start w = \<lparr>world = w, calls = [], console = [], processed = 0, skipped = 0, errors = 0,
              issueToWorkPackageMap = Map.empty\<rparr>"

text \<open>
  \<open>migrateIssues\<close> from line 143 on: the loop, the removal of the directory of temporary
  files, the summary, and the map that is returned.
\<close>

definition migrateIssues ::
  "'w collaborators \<Rightarrow> settings \<Rightarrow> issue list \<Rightarrow> 'w
     \<Rightarrow> (thrown + (jstring \<rightharpoonup> work_package_id)) \<times> 'w run" where
  "migrateIssues api cfg jiraIssues w =
     and_then (processIssues api cfg jiraIssues) (\<lambda>_.
     and_then (call RemoveTempDir (removeTempDir api)) (\<lambda>_.
     and_then printSummary (\<lambda>_ s.
     (Inr (issueToWorkPackageMap s), s)))) (start w)"

section \<open>Shapes of error bodies\<close>

text \<open>
  The error bodies of the target service: an envelope with \<open>_type\<close> \<open>Error\<close>, an identifier
  and embedded data; a property constraint violation names the attribute it is about; a
  composite embeds a list of errors.
\<close>

definition error_envelope :: "jstring \<Rightarrow> jsval \<Rightarrow> jsval" where
  "error_envelope ident embedded =
     JObj [(js ''_type'', JStr (js ''Error'')), (js ''errorIdentifier'', JStr ident),
           (js ''_embedded'', embedded)]"

definition violation :: "string \<Rightarrow> jsval" where
  "violation attr =
     error_envelope PropertyConstraintViolation
       (JObj [(js ''details'', JObj [(js ''attribute'', JStr (js attr))])])"

definition multiple_errors :: "jsval list \<Rightarrow> jsval" where
  "multiple_errors subs = error_envelope MultipleErrors (JObj [(js ''errors'', JArr subs)])"

text \<open>The failure of an HTTP call that was answered with the body \<open>d\<close>.\<close>

definition rejected :: "jsval \<Rightarrow> thrown" where
  "rejected d = Failure (js ''Request failed'') (JObj [(js ''data'', d)])"

text \<open>
  The cases \<open>getErrors\<close> distinguishes on a response body \<open>d\<close>: it is recognized when
  \<open>d._type == "Error"\<close>, a composite when its identifier is the one of multiple errors,
  and a single error with embedded data otherwise.
\<close>

definition recognized :: "jsval \<Rightarrow> bool" where
  "recognized d \<longleftrightarrow> loose_eq_lit (opt_prop d (js ''_type'')) (js ''Error'') = Inr True"

definition composite :: "jsval \<Rightarrow> bool" where
  "composite d \<longleftrightarrow>
     recognized d \<and> loose_eq_lit (opt_prop d (js ''errorIdentifier'')) MultipleErrors = Inr True"

definition single_error :: "jsval \<Rightarrow> bool" where
  "single_error d \<longleftrightarrow>
     recognized d \<and> loose_eq_lit (opt_prop d (js ''errorIdentifier'')) MultipleErrors = Inr False
     \<and> \<not> nullish (opt_prop d (js ''_embedded''))"

definition classify_single :: "jsval \<Rightarrow> classified" where
  "classify_single d =
     \<lparr>error = opt_prop d (js ''errorIdentifier''),
      details = opt_prop (opt_prop d (js ''_embedded'')) (js ''details'')\<rparr>"

section \<open>Stand-in collaborators and sample data\<close>

text \<open>
  Collaborators over a world without state, for running the engine on concrete inputs:
  the type lookup, the creation of a work package, the listing of attachments and the
  addition of a watcher answer as given; no work package exists yet, and every other call
  succeeds.
\<close>

definition stub ::
  "(jstring \<Rightarrow> thrown + nat) \<Rightarrow> (payload \<Rightarrow> thrown + work_package)
     \<Rightarrow> (work_package_id \<Rightarrow> thrown + jstring list) \<Rightarrow> (user_id \<Rightarrow> thrown + unit)
     \<Rightarrow> unit collaborators" where
  "stub types create attachments watch =
     \<lparr>findExistingWorkPackage = (\<lambda>k p w. (Inr None, w)),
      getWorkPackageTypeId = (\<lambda>n w. (types n, w)),
      getWorkPackageStatusId = (\<lambda>n w. (Inr 1, w)),
      getWorkPackagePriorityId = (\<lambda>d w. (Inr 1, w)),
      createWorkPackage = (\<lambda>p pl w. (create pl, w)),
      updateWorkPackage = (\<lambda>n pl w. (Inr \<lparr>wp_id = n\<rparr>, w)),
      addUserToProject = (\<lambda>u p w. (Inr (), w)),
      getExistingAttachments = (\<lambda>n w. (attachments n, w)),
      downloadAttachment = (\<lambda>url f w. (Inr (), w)),
      uploadAttachment = (\<lambda>n f name w. (Inr (), w)),
      unlinkSync = (\<lambda>f w. (Inr (), w)),
      getExistingComments = (\<lambda>n w. (Inr [], w)),
      addComment = (\<lambda>n c w. (Inr (), w)),
      getIssueWatchers = (\<lambda>k w. (Inr [], w)),
      addWatcher = (\<lambda>n u w. (watch u, w)),
      removeTempDir = (\<lambda>w. (Inr (), w)),
      tempFilePath = (\<lambda>f. js ''temp/'' @ f),
      toLocaleString = (\<lambda>d. d)\<rparr>"

definition sample_issue :: "string \<Rightarrow> string \<Rightarrow> issue" where
  "sample_issue k ty =
     \<lparr>key = js k, summary = js ''A summary'', description = JNull, issuetype = js ty,
      status = js ''Open'', priority = JNull, assignee = None, creator = None,
      attachment = [], comments = [], watchCount = 0\<rparr>"

text \<open>A type lookup that does not know the type \<open>Bug\<close>.\<close>

definition sample_types :: "jstring \<Rightarrow> thrown + nat" where
  "sample_types n = (if n = js ''Bug'' then Inl (Failure (js ''Unknown type'') JUndefined) else Inr 1)"

text \<open>A creation that numbers the work package after the length of the issue key.\<close>

definition sample_create :: "payload \<Rightarrow> thrown + work_package" where
  "sample_create pl = Inr \<lparr>wp_id = 100 + length (customField pl)\<rparr>"

definition sample_settings :: "bool \<Rightarrow> (jstring \<rightharpoonup> work_package) \<Rightarrow> settings" where
  "sample_settings skip cache =
     \<lparr>openProjectId = 3, skipUpdates = skip, mapResponsible = True,
      userMapping = [js ''alice'' \<mapsto> 5, js ''bob'' \<mapsto> 7],
      openProjectWorkPackagesCache = cache\<rparr>"

text \<open>
  A sample run in skip-updates mode over three issues: \<open>PROJ-1\<close> is new, the type of
  \<open>PROJ-12\<close> is unknown, \<open>PROJ-3\<close> is in the cache as work package 33.
\<close>

definition sample_api :: "unit collaborators" where
  "sample_api = stub sample_types sample_create (\<lambda>n. Inr []) (\<lambda>u. Inr ())"

definition sample_skip_settings :: settings where
  "sample_skip_settings = sample_settings True [js ''PROJ-3'' \<mapsto> \<lparr>wp_id = 33\<rparr>]"

definition sample_issues :: "issue list" where
  "sample_issues =
     [sample_issue ''PROJ-1'' ''Task'', sample_issue ''PROJ-12'' ''Bug'',
      sample_issue ''PROJ-3'' ''Task'']"



text \<open>
  Runs in which the catch of the loop is entered with a value it cannot report, and a run
  in which the removal of the directory of temporary files fails.
\<close>

definition null_throwing_api :: "unit collaborators" where
  "null_throwing_api =
     stub (\<lambda>n. if n = js ''Bug'' then Inl (Raised JNull) else Inr 1) sample_create
       (\<lambda>n. Inr []) (\<lambda>u. Inr ())"

definition cyclic_failure :: thrown where
  "cyclic_failure =
     CyclicFailure (js ''Service unavailable'')
       (JObj [(js ''data'', JObj [(js ''message'', JStr (js ''unavailable''))])])"

definition cyclic_failing_api :: "unit collaborators" where
  "cyclic_failing_api = stub sample_types sample_create (\<lambda>n. Inl cyclic_failure) (\<lambda>u. Inr ())"

definition cleanup_failing_api :: "unit collaborators" where
  "cleanup_failing_api =
     sample_api\<lparr>removeTempDir := (\<lambda>w. (Inl (Failure (js ''EBUSY'') JUndefined), w))\<rparr>"

section \<open>Observations on a run\<close>

text \<open>
  An action is framed when it leaves the counters and the map of the run as they are
  (it may print, call collaborators and change the world).
\<close>

definition frame :: "('a, 'w) action \<Rightarrow> bool" where
  "frame m \<longleftrightarrow>
     (\<forall>s. processed (snd (m s)) = processed s \<and> skipped (snd (m s)) = skipped s
          \<and> errors (snd (m s)) = errors s
          \<and> issueToWorkPackageMap (snd (m s)) = issueToWorkPackageMap s)"

text \<open>
  The values the \<open>catch\<close> of the loop can report, that is, on which it runs to its end: those
  that are not \<open>null\<close> or \<open>undefined\<close> and whose response body, if it is printed, holds no
  cycle.
\<close>

definition reportable :: "thrown \<Rightarrow> bool" where
  "reportable err \<longleftrightarrow>
     \<not> nullish (error_value err)
     \<and> \<not> (cyclic_body err
          \<and> truthy (opt_prop (opt_prop (error_value err) (js ''response'')) (js ''data'')))"

text \<open>What the \<open>catch\<close> of the loop prints after its first line (lines 362 to 367).\<close>

definition logged_details :: "thrown \<Rightarrow> console_line list" where
  "logged_details err =
     (let d = opt_prop (opt_prop (error_value err) (js ''response'')) (js ''data'')
      in if truthy d then [ErrorDetails d] else [])"

text \<open>Selections from the list of calls: creations, additions of a watcher, and the users
  to whom membership was granted.\<close>

fun is_creation :: "api_call \<Rightarrow> bool" where
  "is_creation (CreateWorkPackage p pl) = True"
| "is_creation _ = False"

fun is_watcher_addition :: "api_call \<Rightarrow> bool" where
  "is_watcher_addition (AddWatcher n u) = True"
| "is_watcher_addition _ = False"

fun grants :: "api_call list \<Rightarrow> user_id option list" where
  "grants [] = []"
| "grants (AddUserToProject u p # cs) = u # grants cs"
| "grants (c # cs) = grants cs"

text \<open>
  A failure is remediable for an operation when it classifies and one of the attributes
  named for the operation is among the failing ones; an operation always fails remediably
  when it does so in every state of the world.
\<close>

definition remediable :: "string list \<Rightarrow> thrown \<Rightarrow> bool" where
  "remediable names e =
     (case failing_attributes e of
        Inl t \<Rightarrow> False
      | Inr attrs \<Rightarrow> \<exists>n \<in> set names. array_includes attrs n)"

definition always_fails_remediably :: "('a, 'w) extern \<Rightarrow> string list \<Rightarrow> bool" where
  "always_fails_remediably f names \<longleftrightarrow>
     (\<forall>w. case fst (f w) of Inl e \<Rightarrow> remediable names e | Inr x \<Rightarrow> False)"

text \<open>
  The spec's words, for comparison: "each distinct identity referenced by the failing
  attributes".
\<close>

definition spec_failing_identities ::
  "jsval list \<Rightarrow> user_id option \<Rightarrow> user_id option \<Rightarrow> user_id option list" where
  "spec_failing_identities attrs assigneeId responsibleId =
     remdups ((if array_includes attrs ''assignee'' then [assigneeId] else [])
              @ (if array_includes attrs ''responsible'' then [responsibleId] else []))"

text \<open>A payload, and collaborators whose creation and watcher addition answer with a given
  error body.\<close>

definition sample_payload :: payload where
  "sample_payload =
     \<lparr>subject = js ''A summary'', description_raw = [], type_link = 1, status_link = 1,
      priority_link = 1, project_link = 3, customField = js ''PROJ-1'',
      assignee_link = Some (UserId 5), responsible_link = Some (UserId 7)\<rparr>"

definition rejecting_api :: "jsval \<Rightarrow> unit collaborators" where
  "rejecting_api d =
     stub sample_types (\<lambda>pl. Inl (rejected d)) (\<lambda>n. Inr []) (\<lambda>u. Inl (rejected d))"

definition missing_permission :: jsval where
  "missing_permission =
     JObj [(js ''_type'', JStr (js ''Error'')),
           (js ''errorIdentifier'', JStr (js ''urn:openproject-org:api:v3:errors:MissingPermission'')),
           (js ''message'', JStr (js ''You are not authorized to access this resource.''))]"

section \<open>The rendering as the specification words it\<close>

text \<open>
  "Walk top-level blocks, concatenate each block's inline text runs, join blocks with a
  single newline, trim overall whitespace": the text run of an inline node is its \<open>text\<close>
  when that is a string, and empty otherwise.
\<close>

definition spec_inline_text :: "jsval \<Rightarrow> jstring" where
  "spec_inline_text c = (case opt_prop c (js ''text'') of JStr s \<Rightarrow> s | _ \<Rightarrow> [])"

definition spec_block_text :: "jsval \<Rightarrow> jstring" where
  "spec_block_text b =
     (case opt_prop b (js ''content'') of JArr cs \<Rightarrow> concat (map spec_inline_text cs) | _ \<Rightarrow> [])"

definition spec_render :: "jsval \<Rightarrow> jstring" where
  "spec_render d =
     (case opt_prop d (js ''content'') of
        JArr bs \<Rightarrow> trim (intercalate (js [CHR 0x0A]) (map spec_block_text bs))
      | _ \<Rightarrow> [])"

text \<open>
  A structured document: an object whose \<open>content\<close> is an array of blocks; a block is an
  object with an array of inline nodes as \<open>content\<close> or with none; an inline node is an object
  whose \<open>text\<close> is a string or absent. Further properties (\<open>type\<close>, \<open>attrs\<close>, \<open>marks\<close>) may
  be present.
\<close>

fun is_object :: "jsval \<Rightarrow> bool" where
  "is_object (JObj kvs) = True"
| "is_object _ = False"

definition structured_inline :: "jsval \<Rightarrow> bool" where
  "structured_inline c \<longleftrightarrow>
     is_object c \<and> (case opt_prop c (js ''text'') of JStr s \<Rightarrow> True | JUndefined \<Rightarrow> True | _ \<Rightarrow> False)"

definition structured_block :: "jsval \<Rightarrow> bool" where
  "structured_block b \<longleftrightarrow>
     is_object b \<and>
     (case opt_prop b (js ''content'') of
        JArr cs \<Rightarrow> list_all structured_inline cs
      | JUndefined \<Rightarrow> True
      | _ \<Rightarrow> False)"

definition structured_document :: "jsval \<Rightarrow> bool" where
  "structured_document d \<longleftrightarrow>
     is_object d \<and>
     (case opt_prop d (js ''content'') of JArr bs \<Rightarrow> list_all structured_block bs | _ \<Rightarrow> False)"

text \<open>Well-formed UTF-16: every surrogate is part of a pair.\<close>

fun well_formed :: "jstring \<Rightarrow> bool" where
  "well_formed [] = True"
| "well_formed [c] = (\<not> is_high_surrogate c \<and> \<not> is_low_surrogate c)"
| "well_formed (c # d # cs) =
     (if is_high_surrogate c \<and> is_low_surrogate d then well_formed cs
      else \<not> is_high_surrogate c \<and> \<not> is_low_surrogate c \<and> well_formed (d # cs))"

text \<open>Sample documents.\<close>

definition text_node :: "jstring \<Rightarrow> jsval" where
  "text_node s = JObj [(js ''type'', JStr (js ''text'')), (js ''text'', JStr s)]"

definition paragraph_node :: "jsval list \<Rightarrow> jsval" where
  "paragraph_node cs = JObj [(js ''type'', JStr (js ''paragraph'')), (js ''content'', JArr cs)]"

definition sample_document :: jsval where
  "sample_document =
     JObj [(js ''type'', JStr (js ''doc'')),
           (js ''content'',
            JArr [paragraph_node [text_node (js '' Hello ''),
                             JObj [(js ''type'', JStr (js ''hardBreak''))],
                             text_node (js ''there'')],
                  JObj [(js ''type'', JStr (js ''rule''))],
                  paragraph_node [text_node (js ''world '')]])]"

definition surrogate_document :: jsval where
  "surrogate_document =
     JObj [(js ''type'', JStr (js ''doc'')),
           (js ''content'', JArr [paragraph_node [text_node [0xD800]]])]"

section \<open>Properties of the error classifier\<close>

text \<open>
  C3. The claim: the classifier never throws, whatever the response looks like. The code
  reads \<open>_embedded.details\<close> without a guard, so an error body that carries \<open>_type\<close>
  \<open>Error\<close> and an identifier but no \<open>_embedded\<close> (the shape of a "not found" response)
  makes it throw a \<open>TypeError\<close> instead of returning a list.
\<close>

theorem getErrors_throws_without_embedded:
  "getErrors (error_value (Failure (js ''Request failed with status code 404'')
      (JObj [(js ''data'',
         JObj [(js ''_type'', JStr (js ''Error'')),
               (js ''errorIdentifier'', JStr (js ''urn:openproject-org:api:v3:errors:NotFound'')),
               (js ''message'', JStr (js ''Not found''))])])))
   = Inl TypeError"
  by (simp add: getErrors.simps response_data_def strict_data_def js_def MultipleErrors_def)

lemma get_prop_non_nullish: "\<not> nullish v \<Longrightarrow> get_prop v n = Inr (opt_prop v n)"
  by (cases v) auto

lemma loose_eq_lit_True_defined: "loose_eq_lit v lit = Inr True \<Longrightarrow> \<not> nullish v"
  by (cases v) auto

lemma opt_prop_non_nullish: "\<not> nullish (opt_prop v n) \<Longrightarrow> \<not> nullish v"
  by (cases v) auto

lemma recognized_strict_data:
  assumes "recognized (response_data e)"
  shows "strict_data e = Inr (response_data e)" "\<not> nullish (response_data e)"
proof -
  from assms have ty: "\<not> nullish (opt_prop (response_data e) (js ''_type''))"
    unfolding recognized_def by (rule loose_eq_lit_True_defined)
  then have "opt_prop (response_data e) (js ''_type'') \<noteq> JUndefined" by auto
  then show "strict_data e = Inr (response_data e)" by (rule strict_data_eq)
  from ty show "\<not> nullish (response_data e)" by (rule opt_prop_non_nullish)
qed

lemma getErrors_unrecognized:
  "loose_eq_lit (opt_prop (response_data e) (js ''_type'')) (js ''Error'') = Inr False
   \<Longrightarrow> getErrors e = Inr []"
  by (simp add: getErrors.simps)

lemma getErrors_single:
  assumes "single_error (response_data e)"
  shows "getErrors e = Inr [classify_single (response_data e)]"
proof -
  let ?d = "response_data e"
  from assms have r: "recognized ?d" by (simp add: single_error_def)
  note sd = recognized_strict_data [OF r]
  from assms have emb: "\<not> nullish (opt_prop ?d (js ''_embedded''))"
    by (simp add: single_error_def)
  show ?thesis
    using assms r
    by (subst getErrors.simps)
       (simp add: single_error_def recognized_def sd get_prop_non_nullish [OF sd(2)]
          get_prop_non_nullish [OF emb] classify_single_def)
qed

lemma push_all_Inr:
  "\<forall>x \<in> set xs. f x = Inr (r x) \<Longrightarrow> push_all (map f xs) = Inr (concat (map r xs))"
  by (induction xs) auto

lemma getErrors_composite:
  assumes "composite (response_data e)"
    and "opt_prop (opt_prop (response_data e) (js ''_embedded'')) (js ''errors'') = JArr subs"
    and "\<forall>sub \<in> set subs. getErrors (wrap_data sub) = Inr (r sub)"
  shows "getErrors e = Inr (concat (map r subs))"
proof -
  let ?d = "response_data e"
  from assms(1) have rec: "recognized ?d" by (simp add: composite_def)
  note sd = recognized_strict_data [OF rec]
  from assms(2) have "\<not> nullish (opt_prop (opt_prop ?d (js ''_embedded'')) (js ''errors''))"
    by simp
  then have emb: "\<not> nullish (opt_prop ?d (js ''_embedded''))" by (rule opt_prop_non_nullish)
  show ?thesis
    using assms(1,2)
    by (subst getErrors.simps)
       (simp add: recognized_def composite_def sd get_prop_non_nullish [OF sd(2)]
          get_prop_non_nullish [OF emb] push_all_Inr [OF assms(3)])
qed

lemma getErrors_composite_of_singles:
  assumes "composite (response_data e)"
    and "opt_prop (opt_prop (response_data e) (js ''_embedded'')) (js ''errors'') = JArr subs"
    and "\<forall>sub \<in> set subs. single_error sub"
  shows "getErrors e = Inr (map classify_single subs)"
proof -
  have "\<forall>sub \<in> set subs. getErrors (wrap_data sub) = Inr [classify_single sub]"
    using assms(3) getErrors_single [of "wrap_data sub" for sub]
    by (simp add: response_data_wrap)
  from getErrors_composite [OF assms(1,2) this] show ?thesis
    by (simp add: concat_map_singleton)
qed

text \<open>
  C1, as amended. When the body is not recognized (\<open>_type\<close> is not \<open>Error\<close>) the result is
  the empty list. A single error that has embedded data gives the one-element list of its
  identifier and details. A composite gives the concatenation, in order, of the
  classifications of its sub-errors: one entry for each of its N sub-errors when each of
  them is a single error, and otherwise as many entries as the classifications of the
  sub-errors have (a nested composite is flattened too, a sub-error that is not recognized
  contributes nothing).
\<close>

theorem getErrors_flattens_in_order:
  "(loose_eq_lit (opt_prop (response_data e) (js ''_type'')) (js ''Error'') = Inr False
      \<longrightarrow> getErrors e = Inr [])
   \<and> (single_error (response_data e)
      \<longrightarrow> getErrors e = Inr [classify_single (response_data e)])
   \<and> (composite (response_data e)
       \<and> opt_prop (opt_prop (response_data e) (js ''_embedded'')) (js ''errors'') = JArr subs
       \<and> (\<forall>sub \<in> set subs. getErrors (wrap_data sub) = Inr (r sub))
      \<longrightarrow> getErrors e = Inr (concat (map r subs)))
   \<and> (composite (response_data e)
       \<and> opt_prop (opt_prop (response_data e) (js ''_embedded'')) (js ''errors'') = JArr subs
       \<and> (\<forall>sub \<in> set subs. single_error sub)
      \<longrightarrow> getErrors e = Inr (map classify_single subs)
          \<and> length (map classify_single subs) = length subs)"
  using getErrors_unrecognized [of e] getErrors_single [of e]
    getErrors_composite [of e subs r] getErrors_composite_of_singles [of e subs]
  by simp

theorem getErrors_flattens_in_order_witness:
  "composite (response_data (error_value (rejected
      (multiple_errors [violation ''assignee'', violation ''responsible'']))))
   \<and> single_error (violation ''assignee'') \<and> single_error (violation ''responsible'')
   \<and> getErrors (error_value (rejected
        (multiple_errors [violation ''assignee'', violation ''responsible''])))
      = Inr [\<lparr>error = JStr PropertyConstraintViolation,
               details = JObj [(js ''attribute'', JStr (js ''assignee''))]\<rparr>,
             \<lparr>error = JStr PropertyConstraintViolation,
               details = JObj [(js ''attribute'', JStr (js ''responsible''))]\<rparr>]"
proof -
  let ?subs = "[violation ''assignee'', violation ''responsible'']"
  let ?e = "error_value (rejected (multiple_errors ?subs))"
  have data: "response_data ?e = multiple_errors ?subs"
    by (simp add: rejected_def response_data_def js_def)
  have comp: "composite (response_data ?e)"
    unfolding data
    by (simp add: multiple_errors_def error_envelope_def composite_def recognized_def js_def)
  have errs: "opt_prop (opt_prop (response_data ?e) (js ''_embedded'')) (js ''errors'') = JArr ?subs"
    unfolding data by (simp add: multiple_errors_def error_envelope_def js_def)
  have singles: "single_error (violation ''assignee'')" "single_error (violation ''responsible'')"
    by (simp_all add: violation_def error_envelope_def single_error_def recognized_def
          MultipleErrors_def PropertyConstraintViolation_def js_def)
  then have all: "\<forall>sub \<in> set ?subs. single_error sub"
    by simp
  from getErrors_flattens_in_order [of ?e ?subs] comp errs all
  have "getErrors ?e = Inr (map classify_single ?subs)"
    by blast
  with comp singles show ?thesis
    by (simp add: classify_single_def violation_def error_envelope_def js_def)
qed

text \<open>
  The claim as stated fails: a composite that embeds one sub-error, itself a composite of
  two violations, is classified as two entries, not one.
\<close>

theorem getErrors_nested_composite_counterexample:
  "getErrors (error_value (rejected
      (multiple_errors [multiple_errors [violation ''assignee'', violation ''responsible'']])))
   = Inr [\<lparr>error = JStr PropertyConstraintViolation,
            details = JObj [(js ''attribute'', JStr (js ''assignee''))]\<rparr>,
          \<lparr>error = JStr PropertyConstraintViolation,
            details = JObj [(js ''attribute'', JStr (js ''responsible''))]\<rparr>]
   \<and> length [multiple_errors [violation ''assignee'', violation ''responsible'']] = 1"
  by (simp add: getErrors.simps rejected_def multiple_errors_def violation_def error_envelope_def
        response_data_def strict_data_def wrap_data_def
        MultipleErrors_def PropertyConstraintViolation_def js_def)

section \<open>Properties of the engine\<close>

lemma frame_ret [intro!, simp]: "frame (ret x)"
  by (simp add: frame_def ret_def)

lemma frame_throw [intro!, simp]: "frame (throw t)"
  by (simp add: frame_def throw_def)

lemma frame_lift [intro!, simp]: "frame (lift r)"
  by (simp add: frame_def lift_def)

lemma frame_console_log [intro!, simp]: "frame (console_log l)"
  by (simp add: frame_def console_log_def)

lemma frame_call [intro!, simp]: "frame (call c f)"
  by (simp add: frame_def call_def split: prod.splits)

lemma frame_and_then [intro!]: "frame m \<Longrightarrow> (\<And>x. frame (f x)) \<Longrightarrow> frame (and_then m f)"
  unfolding frame_def and_then_def
  by (auto split: prod.splits sum.splits) (metis snd_conv)+

lemma frame_try_catch [intro!]: "frame m \<Longrightarrow> (\<And>t. frame (h t)) \<Longrightarrow> frame (try_catch m h)"
  unfolding frame_def try_catch_def
  by (auto split: prod.splits sum.splits) (metis snd_conv)+

lemma frame_for_each [intro!]: "(\<And>x. frame (f x)) \<Longrightarrow> frame (for_each xs f)"
  by (induction xs) auto

lemma frame_if [intro!]: "frame a \<Longrightarrow> frame b \<Longrightarrow> frame (if c then a else b)"
  by simp

lemma frame_getOpenProjectUserId [intro!, simp]: "frame (getOpenProjectUserId cfg u)"
  by (auto simp: getOpenProjectUserId_def split: option.splits)

lemma frame_addUsersToProject [intro!, simp]: "frame (addUsersToProject api cfg ids)"
  by (auto simp: addUsersToProject_def)

lemma frame_createWithRemediation [intro!, simp]: "frame (createWithRemediation api cfg p a r)"
  by (auto simp: createWithRemediation_def Let_def)

lemma frame_addWatcherWithRemediation [intro!, simp]: "frame (addWatcherWithRemediation api cfg w u)"
  by (auto simp: addWatcherWithRemediation_def)

lemma frame_buildPayload [intro!, simp]: "frame (buildPayload api cfg i a r)"
  by (auto simp: buildPayload_def Let_def)

lemma frame_upsert [intro!, simp]: "frame (upsert api cfg i ex)"
  by (auto simp: upsert_def split: option.splits)

lemma frame_syncAttachments [intro!, simp]: "frame (syncAttachments api i wp)"
  by (auto simp: syncAttachments_def)

lemma frame_syncComments [intro!, simp]: "frame (syncComments api i wp)"
  by (auto simp: syncComments_def Let_def)

lemma frame_syncWatchers [intro!, simp]: "frame (syncWatchers api cfg i wp)"
  by (auto simp: syncWatchers_def split: option.splits)

lemma frame_syncSubEntities [intro!, simp]: "frame (syncSubEntities api cfg i wp)"
  by (auto simp: syncSubEntities_def)

lemma frame_lookupExisting [intro!, simp]: "frame (lookupExisting api cfg i)"
  by (auto simp: lookupExisting_def)

lemma frameD:
  assumes "frame m" "m s = (r, s')"
  shows "processed s' = processed s" "skipped s' = skipped s" "errors s' = errors s"
    "issueToWorkPackageMap s' = issueToWorkPackageMap s"
  using assms unfolding frame_def by (metis snd_conv)+

lemmas engine_defs =
  migrateIssues_def processIssues_def processIssue_def issueBody_def upsertAndSync_def upsert_def
  syncSubEntities_def syncAttachments_def syncComments_def syncWatchers_def buildPayload_def
  lookupExisting_def createWithRemediation_def addUsersToProject_def
  addWatcherWithRemediation_def issueCatch_def
  printSummary_def start_def getOpenProjectUserId_def mapping_lookup_def stringify_body_def
  and_then_def try_catch_def ret_def throw_def lift_def call_def console_log_def modify_def
  map_set_def Let_def

lemmas sample_defs =
  sample_api_def sample_skip_settings_def sample_issues_def
  stub_def sample_issue_def sample_types_def sample_create_def sample_settings_def js_def
  null_throwing_api_def cyclic_failing_api_def cyclic_failure_def cleanup_failing_api_def

lemma issueCatch_eq:
  "reportable t \<Longrightarrow>
   issueCatch i t s =
     (Inr (), s\<lparr>console := console s @ ErrorProcessing (key i) t # logged_details t,
                errors := errors s + 1\<rparr>)"
  by (auto simp: issueCatch_def reportable_def logged_details_def stringify_body_def and_then_def
        lift_def console_log_def modify_def ret_def Let_def get_prop_non_nullish)

lemma issueCatch_throws:
  assumes "\<not> reportable t"
  shows "fst (issueCatch i t s) = Inl TypeError"
    and "processed (snd (issueCatch i t s)) = processed s"
    and "skipped (snd (issueCatch i t s)) = skipped s"
    and "errors (snd (issueCatch i t s)) = errors s"
proof -
  have "fst (issueCatch i t s) = Inl TypeError \<and> processed (snd (issueCatch i t s)) = processed s
      \<and> skipped (snd (issueCatch i t s)) = skipped s \<and> errors (snd (issueCatch i t s)) = errors s"
  proof (cases "nullish (error_value t)")
    case True
    then have "get_prop (error_value t) (js ''message'') = Inl TypeError"
      by (cases "error_value t") auto
    then show ?thesis
      by (simp add: issueCatch_def and_then_def lift_def)
  next
    case False
    with assms have "cyclic_body t"
      "truthy (opt_prop (opt_prop (error_value t) (js ''response'')) (js ''data''))"
      by (auto simp: reportable_def)
    with False show ?thesis
      by (simp add: issueCatch_def stringify_body_def and_then_def lift_def console_log_def
            Let_def get_prop_non_nullish)
  qed
  then show "fst (issueCatch i t s) = Inl TypeError"
    and "processed (snd (issueCatch i t s)) = processed s"
    and "skipped (snd (issueCatch i t s)) = skipped s"
    and "errors (snd (issueCatch i t s)) = errors s"
    by simp_all
qed

lemma issueCatch_index:
  "issueToWorkPackageMap (snd (issueCatch i t s)) = issueToWorkPackageMap s"
  by (auto simp: issueCatch_def stringify_body_def and_then_def lift_def console_log_def
        modify_def ret_def Let_def split: sum.splits)

lemma processIssue_caught:
  "issueBody api cfg i s = (Inl t, s') \<Longrightarrow> reportable t \<Longrightarrow>
   processIssue api cfg i s =
     (Inr (), s'\<lparr>console := console s' @ ErrorProcessing (key i) t # logged_details t,
                 errors := errors s' + 1\<rparr>)"
  by (simp add: processIssue_def try_catch_def issueCatch_eq)

lemma processIssue_uncaught:
  assumes "issueBody api cfg i s = (Inl t, s')" "\<not> reportable t"
  shows "fst (processIssue api cfg i s) = Inl TypeError"
    and "processed (snd (processIssue api cfg i s)) = processed s'"
    and "skipped (snd (processIssue api cfg i s)) = skipped s'"
    and "errors (snd (processIssue api cfg i s)) = errors s'"
  using assms(1) issueCatch_throws [OF assms(2), of i s']
  by (simp_all add: processIssue_def try_catch_def)

lemma processIssue_passed:
  "issueBody api cfg i s = (Inr x, s') \<Longrightarrow> processIssue api cfg i s = (Inr (), s')"
  by (simp add: processIssue_def try_catch_def)


lemma processIssues_Nil: "processIssues api cfg [] s = (Inr (), s)"
  by (simp add: processIssues_def ret_def)

lemma processIssues_Cons:
  "processIssues api cfg (i # rest) s =
     (case processIssue api cfg i s of
        (Inl t, s') \<Rightarrow> (Inl t, s')
      | (Inr u, s') \<Rightarrow> processIssues api cfg rest s')"
  by (simp add: processIssues_def and_then_def split: prod.splits sum.splits)

lemma processIssues_Cons_Inr:
  "fst (processIssue api cfg i s) = Inr () \<Longrightarrow>
   processIssues api cfg (i # rest) s = processIssues api cfg rest (snd (processIssue api cfg i s))"
  by (cases "processIssue api cfg i s") (simp add: processIssues_Cons)

lemma processIssues_Cons_Inl:
  "fst (processIssue api cfg i s) = Inl t \<Longrightarrow>
   processIssues api cfg (i # rest) s = processIssue api cfg i s"
  by (cases "processIssue api cfg i s") (simp add: processIssues_Cons)

lemma processIssues_head_Inr:
  "fst (processIssues api cfg (i # rest) s) = Inr () \<Longrightarrow> fst (processIssue api cfg i s) = Inr ()"
  by (cases "processIssue api cfg i s") (auto simp: processIssues_Cons split: sum.splits)

lemma processIssues_prefix_Inr:
  "fst (processIssues api cfg (xs @ ys) s) = Inr () \<Longrightarrow> fst (processIssues api cfg xs s) = Inr ()"
proof (induction xs arbitrary: s)
  case Nil
  then show ?case by (simp add: processIssues_Nil)
next
  case (Cons i xs)
  from Cons.prems have h: "fst (processIssue api cfg i s) = Inr ()"
    by (simp add: processIssues_head_Inr)
  with Cons show ?case by (simp add: processIssues_Cons_Inr)
qed

lemma processIssues_append:
  "fst (processIssues api cfg xs s) = Inr () \<Longrightarrow>
   processIssues api cfg (xs @ ys) s = processIssues api cfg ys (snd (processIssues api cfg xs s))"
proof (induction xs arbitrary: s)
  case Nil
  then show ?case by (simp add: processIssues_Nil)
next
  case (Cons i xs)
  from Cons.prems have h: "fst (processIssue api cfg i s) = Inr ()"
    by (rule processIssues_head_Inr)
  with Cons show ?case by (simp add: processIssues_Cons_Inr)
qed

lemma processIssues_split:
  assumes "fst (processIssues api cfg (pre @ i # post) s) = Inr ()"
  shows "fst (processIssues api cfg pre s) = Inr ()"
    and "fst (processIssue api cfg i (snd (processIssues api cfg pre s))) = Inr ()"
    and "processIssues api cfg (pre @ i # post) s
         = processIssues api cfg post
             (snd (processIssue api cfg i (snd (processIssues api cfg pre s))))"
proof -
  show pre: "fst (processIssues api cfg pre s) = Inr ()"
    using assms by (rule processIssues_prefix_Inr)
  from assms have rest: "fst (processIssues api cfg (i # post) (snd (processIssues api cfg pre s))) = Inr ()"
    by (simp add: processIssues_append [OF pre])
  then show step: "fst (processIssue api cfg i (snd (processIssues api cfg pre s))) = Inr ()"
    by (rule processIssues_head_Inr)
  show "processIssues api cfg (pre @ i # post) s
         = processIssues api cfg post
             (snd (processIssue api cfg i (snd (processIssues api cfg pre s))))"
    by (simp add: processIssues_append [OF pre] processIssues_Cons_Inr [OF step])
qed


lemma upsertAndSync_cases:
  assumes "upsertAndSync api cfg i ex s = (r, s')"
  obtains (upsert_failed) t where "r = Inl t" "upsert api cfg i ex s = (Inl t, s')"
  | (sync_failed) wp s1 t where "upsert api cfg i ex s = (Inr wp, s1)" "r = Inl t"
      "syncSubEntities api cfg i wp
         (s1\<lparr>issueToWorkPackageMap := (issueToWorkPackageMap s1)(key i \<mapsto> wp_id wp)\<rparr>) = (Inl t, s')"
  | (synced) wp s1 s2 where "upsert api cfg i ex s = (Inr wp, s1)" "r = Inr ()"
      "syncSubEntities api cfg i wp
         (s1\<lparr>issueToWorkPackageMap := (issueToWorkPackageMap s1)(key i \<mapsto> wp_id wp)\<rparr>) = (Inr (), s2)"
      "s' = s2\<lparr>processed := processed s2 + 1\<rparr>"
  using assms
  by (auto simp: upsertAndSync_def and_then_def map_set_def modify_def split: prod.splits sum.splits)

lemma issueBody_cases:
  assumes "issueBody api cfg i s = (r, s')"
  obtains (skip) wp where "skipUpdates cfg" "openProjectWorkPackagesCache cfg (key i) = Some wp"
      "r = Inr ()"
      "s' = s\<lparr>console := console s @ [Processing (key i), Skipping (key i) (wp_id wp)],
               skipped := skipped s + 1,
               issueToWorkPackageMap := (issueToWorkPackageMap s)(key i \<mapsto> wp_id wp)\<rparr>"
  | (lookup_failed) t where "r = Inl t"
      "lookupExisting api cfg i (s\<lparr>console := console s @ [Processing (key i)]\<rparr>) = (Inl t, s')"
  | (continued) ex s0 where
      "lookupExisting api cfg i (s\<lparr>console := console s @ [Processing (key i)]\<rparr>) = (Inr ex, s0)"
      "\<not> (skipUpdates cfg \<and> ex \<noteq> None)"
      "upsertAndSync api cfg i ex s0 = (r, s')"
  using assms
  by (auto simp: issueBody_def and_then_def console_log_def map_set_def modify_def
        lookupExisting_def ret_def
      split: prod.splits sum.splits option.splits if_splits)

lemma issueBody_counts:
  assumes "issueBody api cfg i s = (r, s')"
  shows "case r of
           Inl t \<Rightarrow> processed s' = processed s \<and> skipped s' = skipped s \<and> errors s' = errors s
         | Inr _ \<Rightarrow> errors s' = errors s
             \<and> (processed s' = processed s + 1 \<and> skipped s' = skipped s
                \<or> processed s' = processed s \<and> skipped s' = skipped s + 1)"
  using assms
proof (cases rule: issueBody_cases)
  case (skip wp)
  then show ?thesis by simp
next
  case (lookup_failed t)
  from frameD [OF frame_lookupExisting lookup_failed(2)] lookup_failed(1) show ?thesis by simp
next
  case (continued ex s0)
  note l = frameD [OF frame_lookupExisting continued(1)]
  from continued(3) show ?thesis
  proof (cases rule: upsertAndSync_cases)
    case (upsert_failed t)
    from frameD [OF frame_upsert upsert_failed(2)] l upsert_failed(1) show ?thesis by simp
  next
    case (sync_failed wp s1 t)
    from frameD [OF frame_upsert sync_failed(1)] frameD [OF frame_syncSubEntities sync_failed(3)]
      l sync_failed(2)
    show ?thesis by simp
  next
    case (synced wp s1 s2)
    from frameD [OF frame_upsert synced(1)] frameD [OF frame_syncSubEntities synced(3)]
      l synced(2,4)
    show ?thesis by simp
  qed
qed


lemma processIssue_uncounted:
  assumes "fst (processIssue api cfg i s) = Inl t"
  shows "processed (snd (processIssue api cfg i s)) = processed s
       \<and> skipped (snd (processIssue api cfg i s)) = skipped s
       \<and> errors (snd (processIssue api cfg i s)) = errors s"
proof (cases "issueBody api cfg i s")
  case (Pair rb sb)
  show ?thesis
  proof (cases rb)
    case (Inl e)
    with Pair assms processIssue_caught [of api cfg i s e sb] have "\<not> reportable e"
      by auto
    from processIssue_uncaught(2-4) [OF _ this, of api cfg i s sb] Pair Inl
      issueBody_counts [OF Pair]
    show ?thesis by simp
  next
    case (Inr x)
    with Pair assms processIssue_passed [of api cfg i s x sb] show ?thesis by simp
  qed
qed


lemma migrateIssues_returned:
  assumes "migrateIssues api cfg jiraIssues w = (Inr m, sf)"
  shows "m = issueToWorkPackageMap (snd (processIssues api cfg jiraIssues (start w)))"
    and "console sf = console (snd (processIssues api cfg jiraIssues (start w)))
           @ [MigrationSummary,
              TotalProcessed (processed (snd (processIssues api cfg jiraIssues (start w)))
                              + skipped (snd (processIssues api cfg jiraIssues (start w)))),
              Completed (processed (snd (processIssues api cfg jiraIssues (start w)))),
              Skipped (skipped (snd (processIssues api cfg jiraIssues (start w)))),
              Errors (errors (snd (processIssues api cfg jiraIssues (start w))))]"
    and "fst (processIssues api cfg jiraIssues (start w)) = Inr ()"
  using assms
  by (auto simp: migrateIssues_def and_then_def call_def printSummary_def
      split: prod.splits sum.splits)


lemma issueBody_records:
  assumes "issueBody api cfg i s = (Inr x, s')"
  shows "\<exists>n. issueToWorkPackageMap s' = (issueToWorkPackageMap s)(key i \<mapsto> n)"
  using assms
proof (cases rule: issueBody_cases)
  case (skip wp)
  then show ?thesis by auto
next
  case (continued ex s0)
  note l = frameD [OF frame_lookupExisting continued(1)]
  from continued(3) show ?thesis
  proof (cases rule: upsertAndSync_cases)
    case (synced wp s1 s2)
    from frameD(4) [OF frame_upsert synced(1)] frameD(4) [OF frame_syncSubEntities synced(3)]
      l(4) synced(4)
    show ?thesis by auto
  qed simp_all
qed simp

lemma issueBody_index:
  assumes "issueBody api cfg i s = (r, s')"
  shows "issueToWorkPackageMap s' = issueToWorkPackageMap s
       \<or> (\<exists>n. issueToWorkPackageMap s' = (issueToWorkPackageMap s)(key i \<mapsto> n))"
  using assms
proof (cases rule: issueBody_cases)
  case (skip wp)
  then show ?thesis by auto
next
  case (lookup_failed t)
  from frameD(4) [OF frame_lookupExisting lookup_failed(2)] show ?thesis by simp
next
  case (continued ex s0)
  note l = frameD [OF frame_lookupExisting continued(1)]
  from continued(3) show ?thesis
  proof (cases rule: upsertAndSync_cases)
    case (upsert_failed t)
    from frameD(4) [OF frame_upsert upsert_failed(2)] l(4) show ?thesis by simp
  next
    case (sync_failed wp s1 t)
    from frameD(4) [OF frame_upsert sync_failed(1)] frameD(4) [OF frame_syncSubEntities sync_failed(3)]
      l(4)
    show ?thesis by auto
  next
    case (synced wp s1 s2)
    from frameD(4) [OF frame_upsert synced(1)] frameD(4) [OF frame_syncSubEntities synced(3)]
      l(4) synced(4)
    show ?thesis by auto
  qed
qed

lemma processIssue_index:
  "issueToWorkPackageMap (snd (processIssue api cfg i s)) = issueToWorkPackageMap s
   \<or> (\<exists>n. issueToWorkPackageMap (snd (processIssue api cfg i s)) = (issueToWorkPackageMap s)(key i \<mapsto> n))"
proof (cases "issueBody api cfg i s")
  case (Pair rb sb)
  show ?thesis
  proof (cases rb)
    case (Inl t)
    with Pair have "processIssue api cfg i s = issueCatch i t sb"
      by (simp add: processIssue_def try_catch_def)
    with issueBody_index [OF Pair] issueCatch_index [of i t sb] show ?thesis by auto
  next
    case (Inr x)
    with Pair issueBody_index [OF Pair] processIssue_passed [of api cfg i s x sb]
    show ?thesis by auto
  qed
qed

lemma processIssues_step:
  "snd (processIssues api cfg (i # rest) s) = snd (processIssue api cfg i s)
   \<or> snd (processIssues api cfg (i # rest) s)
       = snd (processIssues api cfg rest (snd (processIssue api cfg i s)))"
  by (cases "processIssue api cfg i s") (auto simp: processIssues_Cons split: sum.splits)

lemma processIssues_index_other:
  "k \<notin> key ` set rest \<Longrightarrow>
   issueToWorkPackageMap (snd (processIssues api cfg rest s)) k = issueToWorkPackageMap s k"
proof (induction rest arbitrary: s)
  case Nil
  then show ?case by (simp add: processIssues_Nil)
next
  case (Cons i rest)
  from Cons.prems have "k \<noteq> key i" "k \<notin> key ` set rest" by auto
  with Cons.IH [of "snd (processIssue api cfg i s)"] processIssue_index [of api cfg i s]
    processIssues_step [of api cfg i rest s]
  show ?case by auto
qed

lemma processIssues_index_kept:
  "issueToWorkPackageMap s k \<noteq> None \<Longrightarrow>
   issueToWorkPackageMap (snd (processIssues api cfg rest s)) k \<noteq> None"
proof (induction rest arbitrary: s)
  case Nil
  then show ?case by (simp add: processIssues_Nil)
next
  case (Cons i rest)
  from Cons.prems processIssue_index [of api cfg i s]
  have "issueToWorkPackageMap (snd (processIssue api cfg i s)) k \<noteq> None" by (auto split: if_splits)
  with Cons.IH [OF this] processIssues_step [of api cfg i rest s] show ?case by auto
qed

lemma processIssues_index_dom:
  "dom (issueToWorkPackageMap (snd (processIssues api cfg rest s)))
   \<subseteq> dom (issueToWorkPackageMap s) \<union> key ` set rest"
proof (induction rest arbitrary: s)
  case Nil
  then show ?case by (simp add: processIssues_Nil)
next
  case (Cons i rest)
  from processIssue_index [of api cfg i s]
  have "dom (issueToWorkPackageMap (snd (processIssue api cfg i s)))
        \<subseteq> dom (issueToWorkPackageMap s) \<union> {key i}" by auto
  with Cons.IH [of "snd (processIssue api cfg i s)"] processIssues_step [of api cfg i rest s]
  show ?case by (auto; blast)
qed

lemma issueBody_skip:
  assumes "skipUpdates cfg" "openProjectWorkPackagesCache cfg (key i) = Some wp"
  shows "issueBody api cfg i s =
     (Inr (), s\<lparr>console := console s @ [Processing (key i), Skipping (key i) (wp_id wp)],
                skipped := skipped s + 1,
                issueToWorkPackageMap := (issueToWorkPackageMap s)(key i \<mapsto> wp_id wp)\<rparr>)"
  using assms
  by (simp add: issueBody_def lookupExisting_def and_then_def console_log_def ret_def
        map_set_def modify_def)

lemma issueBody_continued:
  assumes "lookupExisting api cfg i (s\<lparr>console := console s @ [Processing (key i)]\<rparr>) = (Inr ex, s0)"
    and "\<not> (skipUpdates cfg \<and> ex \<noteq> None)"
  shows "issueBody api cfg i s = upsertAndSync api cfg i ex s0"
  using assms
  by (auto simp: issueBody_def and_then_def console_log_def split: option.splits)

lemma upsertAndSync_upserted:
  assumes "upsert api cfg i ex s0 = (Inr wp, s1)"
  shows "upsertAndSync api cfg i ex s0 =
     and_then (syncSubEntities api cfg i wp) (\<lambda>_. modify (\<lambda>s. s\<lparr>processed := processed s + 1\<rparr>))
       (s1\<lparr>issueToWorkPackageMap := (issueToWorkPackageMap s1)(key i \<mapsto> wp_id wp)\<rparr>)"
  using assms by (simp add: upsertAndSync_def and_then_def map_set_def modify_def)




text \<open>
  C4. The code calls an issue processed when it was completed or skipped (the summary
  line \<open>Total issues processed\<close> counts these two). For each such issue of the run the
  returned map has an entry under its key: the one the issue's own iteration recorded
  (issue keys being unique), which is the identifier in the cache for a skipped issue and
  the identifier of the work package that was created or updated for a completed one. The
  map has entries under keys of issues of this run only.
\<close>

theorem returned_map_has_every_processed_issue:
  assumes "issueBody api cfg i (snd (processIssues api cfg pre (start w))) = (Inr (), s')"
    and "migrateIssues api cfg (pre @ i # post) w = (Inr m, sf)"
  shows "(\<exists>n. m (key i) = Some n
            \<and> (key i \<notin> key ` set post \<longrightarrow> issueToWorkPackageMap s' (key i) = Some n))
       \<and> (skipUpdates cfg \<and> openProjectWorkPackagesCache cfg (key i) = Some wp
            \<longrightarrow> issueToWorkPackageMap s' (key i) = Some (wp_id wp)
                \<and> (key i \<notin> key ` set post \<longrightarrow> m (key i) = Some (wp_id wp)))
       \<and> (lookupExisting api cfg i
             ((snd (processIssues api cfg pre (start w)))
                \<lparr>console := console (snd (processIssues api cfg pre (start w)))
                              @ [Processing (key i)]\<rparr>) = (Inr ex, s0)
           \<and> \<not> (skipUpdates cfg \<and> ex \<noteq> None)
           \<and> upsert api cfg i ex s0 = (Inr workPackage, s1)
            \<longrightarrow> issueToWorkPackageMap s' (key i) = Some (wp_id workPackage)
                \<and> (key i \<notin> key ` set post \<longrightarrow> m (key i) = Some (wp_id workPackage)))
       \<and> dom m \<subseteq> key ` set (pre @ i # post)"
proof -
  let ?before = "snd (processIssues api cfg pre (start w))"
  have m: "m = issueToWorkPackageMap (snd (processIssues api cfg (pre @ i # post) (start w)))"
    using assms(2) by (rule migrateIssues_returned(1))
  have loop: "fst (processIssues api cfg (pre @ i # post) (start w)) = Inr ()"
    using assms(2) by (rule migrateIssues_returned(3))
  have step: "snd (processIssue api cfg i ?before) = s'"
    using processIssue_passed [OF assms(1)] by simp
  from issueBody_records [OF assms(1)] obtain n where n: "issueToWorkPackageMap s' (key i) = Some n"
    by auto
  have after: "m = issueToWorkPackageMap (snd (processIssues api cfg post s'))"
    unfolding m processIssues_split(3) [OF loop] step ..
  have present: "m (key i) \<noteq> None"
    unfolding after using n by (intro processIssues_index_kept) simp
  have own: "m (key i) = issueToWorkPackageMap s' (key i)" if "key i \<notin> key ` set post"
    unfolding after using that by (rule processIssues_index_other)
  have only: "dom m \<subseteq> key ` set (pre @ i # post)"
    unfolding m using processIssues_index_dom [of api cfg "pre @ i # post" "start w"]
    by (simp add: start_def)
  have cached: "issueToWorkPackageMap s' (key i) = Some (wp_id wp)"
    if "skipUpdates cfg" "openProjectWorkPackagesCache cfg (key i) = Some wp"
    using assms(1) issueBody_skip [OF that, of api ?before] by auto
  have upserted: "issueToWorkPackageMap s' (key i) = Some (wp_id workPackage)"
    if looked: "lookupExisting api cfg i (?before\<lparr>console := console ?before @ [Processing (key i)]\<rparr>)
                  = (Inr ex, s0)"
      and kept: "\<not> (skipUpdates cfg \<and> ex \<noteq> None)"
      and up: "upsert api cfg i ex s0 = (Inr workPackage, s1)"
  proof -
    let ?s1 = "s1\<lparr>issueToWorkPackageMap := (issueToWorkPackageMap s1)(key i \<mapsto> wp_id workPackage)\<rparr>"
    have "issueBody api cfg i ?before =
        and_then (syncSubEntities api cfg i workPackage)
          (\<lambda>_. modify (\<lambda>s. s\<lparr>processed := processed s + 1\<rparr>)) ?s1"
      using issueBody_continued [OF looked kept] upsertAndSync_upserted [OF up] by simp
    with assms(1) obtain s2 where sync: "syncSubEntities api cfg i workPackage ?s1 = (Inr (), s2)"
      and s': "s' = s2\<lparr>processed := processed s2 + 1\<rparr>"
      by (auto simp: and_then_def modify_def split: prod.splits sum.splits)
    from frameD(4) [OF frame_syncSubEntities sync] s' show ?thesis by simp
  qed
  from present own only cached upserted n show ?thesis by auto
qed

theorem returned_map_has_every_processed_issue_witness:
  "fst (issueBody sample_api sample_skip_settings (sample_issue ''PROJ-1'' ''Task'')
          (snd (processIssues sample_api sample_skip_settings [] (start ())))) = Inr ()
   \<and> fst (upsert sample_api sample_skip_settings (sample_issue ''PROJ-1'' ''Task'') None
            ((start ())\<lparr>console := [Processing (js ''PROJ-1'')]\<rparr>)) = Inr \<lparr>wp_id = 106\<rparr>
   \<and> fst (migrateIssues sample_api sample_skip_settings sample_issues ())
       = Inr [js ''PROJ-1'' \<mapsto> 106, js ''PROJ-3'' \<mapsto> 33]
   \<and> issueToWorkPackageMap
        (snd (issueBody sample_api sample_skip_settings (sample_issue ''PROJ-1'' ''Task'')
           (snd (processIssues sample_api sample_skip_settings [] (start ())))))
        (js ''PROJ-1'') = Some 106"
proof -
  let ?i = "sample_issue ''PROJ-1'' ''Task''"
  let ?post = "[sample_issue ''PROJ-12'' ''Bug'', sample_issue ''PROJ-3'' ''Task'']"
  let ?before = "snd (processIssues sample_api sample_skip_settings [] (start ()))"
  let ?body = "issueBody sample_api sample_skip_settings ?i ?before"
  let ?s0 = "(start ())\<lparr>console := [Processing (js ''PROJ-1'')]\<rparr>"
  let ?up = "upsert sample_api sample_skip_settings ?i None ?s0"
  let ?m = "[js ''PROJ-1'' \<mapsto> 106, js ''PROJ-3'' \<mapsto> (33::nat)]"
  let ?run = "migrateIssues sample_api sample_skip_settings ([] @ ?i # ?post) ()"
  have body: "?body = (Inr (), snd ?body)"
    by (simp add: engine_defs sample_defs convertAtlassianDocumentToText_def)
  have run: "?run = (Inr ?m, snd ?run)"
    by (simp add: engine_defs sample_defs convertAtlassianDocumentToText_def logged_details_def)
  have fresh: "key ?i \<notin> key ` set ?post"
    by (simp add: sample_defs)
  have looked: "lookupExisting sample_api sample_skip_settings ?i
      (?before\<lparr>console := console ?before @ [Processing (key ?i)]\<rparr>) = (Inr None, ?s0)"
    by (simp add: engine_defs sample_defs)
  have kept: "\<not> (skipUpdates sample_skip_settings \<and> (None :: work_package option) \<noteq> None)"
    by simp
  have up: "?up = (Inr \<lparr>wp_id = 106\<rparr>, snd ?up)"
    by (simp add: engine_defs sample_defs convertAtlassianDocumentToText_def)
  from returned_map_has_every_processed_issue
    [OF body run, of "\<lparr>wp_id = 33\<rparr>" None ?s0 "\<lparr>wp_id = 106\<rparr>" "snd ?up"]
    fresh looked kept up
  have "issueToWorkPackageMap (snd ?body) (key ?i) = Some 106" and "?m (key ?i) = Some 106"
    by simp_all
  with body run up show ?thesis
    by (simp add: sample_issues_def sample_issue_def) (metis fst_conv)
qed

text \<open>
  C7. In skip-updates mode an issue whose key is in the cache is dealt with by printing
  two lines, recording the cached identifier under the issue key and incrementing
  \<open>skipped\<close>: no collaborator is called (no update, no creation, nothing else), and the
  other counters stay as they are.
\<close>

theorem cached_issue_is_skipped:
  assumes "skipUpdates cfg" "openProjectWorkPackagesCache cfg (key i) = Some wp"
  shows "processIssue api cfg i s =
     (Inr (), s\<lparr>console := console s @ [Processing (key i), Skipping (key i) (wp_id wp)],
                skipped := skipped s + 1,
                issueToWorkPackageMap := (issueToWorkPackageMap s)(key i \<mapsto> wp_id wp)\<rparr>)
     \<and> calls (snd (processIssue api cfg i s)) = calls s
     \<and> world (snd (processIssue api cfg i s)) = world s
     \<and> skipped (snd (processIssue api cfg i s)) = skipped s + 1
     \<and> processed (snd (processIssue api cfg i s)) = processed s
     \<and> errors (snd (processIssue api cfg i s)) = errors s
     \<and> issueToWorkPackageMap (snd (processIssue api cfg i s)) (key i) = Some (wp_id wp)"
  using processIssue_passed [OF issueBody_skip [OF assms, of api s]] by simp

theorem cached_issue_is_skipped_witness:
  "skipUpdates sample_skip_settings
   \<and> openProjectWorkPackagesCache sample_skip_settings (key (sample_issue ''PROJ-3'' ''Task''))
       = Some \<lparr>wp_id = 33\<rparr>
   \<and> calls (snd (processIssue sample_api sample_skip_settings (sample_issue ''PROJ-3'' ''Task'') (start ()))) = []
   \<and> skipped (snd (processIssue sample_api sample_skip_settings (sample_issue ''PROJ-3'' ''Task'') (start ()))) = 1
   \<and> issueToWorkPackageMap
        (snd (processIssue sample_api sample_skip_settings (sample_issue ''PROJ-3'' ''Task'') (start ())))
        (js ''PROJ-3'') = Some 33"
proof -
  have skip: "skipUpdates sample_skip_settings"
    by (simp add: sample_defs)
  have cached: "openProjectWorkPackagesCache sample_skip_settings (key (sample_issue ''PROJ-3'' ''Task''))
       = Some \<lparr>wp_id = 33\<rparr>"
    by (simp add: sample_defs)
  from cached_issue_is_skipped [OF skip cached, of sample_api "start ()"] skip cached
  show ?thesis by (simp add: start_def sample_issue_def)
qed







lemma grants_append: "grants (xs @ ys) = grants xs @ grants ys"
  by (induction xs rule: grants.induct) auto

lemma grants_map: "grants (map (\<lambda>u. AddUserToProject u p) us) = us"
  by (induction us) auto

lemma filter_creation_grants: "filter is_creation (map (\<lambda>u. AddUserToProject u p) us) = []"
  by (induction us) auto

lemma filter_watcher_grants: "filter is_watcher_addition (map (\<lambda>u. AddUserToProject u p) us) = []"
  by (induction us) auto

lemma call_eq: "f (world s) = (r, w) \<Longrightarrow> call c f s = (r, s\<lparr>world := w, calls := calls s @ [c]\<rparr>)"
  by (simp add: call_def)

lemma for_each_Cons:
  "for_each (x # xs) g s = (case g x s of (Inl t, s') \<Rightarrow> (Inl t, s') | (Inr u, s') \<Rightarrow> for_each xs g s')"
  by (simp add: and_then_def)

lemma for_each_grants:
  assumes "for_each ids (\<lambda>u. call (AddUserToProject u p) (f u)) s = (r, s')"
  shows "\<exists>n \<le> length ids. calls s' = calls s @ map (\<lambda>u. AddUserToProject u p) (take n ids)
           \<and> (r = Inr () \<longrightarrow> n = length ids)"
  using assms
proof (induction ids arbitrary: s)
  case Nil
  then show ?case by (simp add: ret_def)
next
  case (Cons u ids)
  obtain r1 w1 where f: "f u (world s) = (r1, w1)" by (cases "f u (world s)")
  show ?case
  proof (cases r1)
    case (Inl t)
    with Cons.prems call_eq [of "f u" s r1 w1 "AddUserToProject u p", OF f]
    have "calls s' = calls s @ [AddUserToProject u p]" "r = Inl t"
      by (auto simp: for_each_Cons simp del: for_each.simps)
    then show ?thesis by (intro exI [of _ 1]) simp
  next
    case (Inr x)
    let ?s1 = "s\<lparr>world := w1, calls := calls s @ [AddUserToProject u p]\<rparr>"
    from Cons.prems call_eq [of "f u" s r1 w1 "AddUserToProject u p", OF f] Inr
    have "for_each ids (\<lambda>u. call (AddUserToProject u p) (f u)) ?s1 = (r, s')"
      by (simp add: for_each_Cons del: for_each.simps)
    from Cons.IH [OF this] obtain n where "n \<le> length ids"
      "calls s' = calls ?s1 @ map (\<lambda>u. AddUserToProject u p) (take n ids)"
      "r = Inr () \<longrightarrow> n = length ids" by blast
    then show ?thesis by (intro exI [of _ "Suc n"]) simp
  qed
qed

lemma for_each_grants_succeed:
  assumes "\<forall>u w. fst (f u w) = Inr ()"
  shows "\<exists>s'. for_each ids (\<lambda>u. call (AddUserToProject u p) (f u)) s = (Inr (), s')
           \<and> calls s' = calls s @ map (\<lambda>u. AddUserToProject u p) ids"
proof (induction ids arbitrary: s)
  case Nil
  then show ?case by (simp add: ret_def)
next
  case (Cons u ids)
  obtain r1 w1 where f: "f u (world s) = (r1, w1)" by (cases "f u (world s)")
  with assms have r1: "r1 = Inr ()" by (metis fst_conv)
  let ?s1 = "s\<lparr>world := w1, calls := calls s @ [AddUserToProject u p]\<rparr>"
  from Cons.IH [of ?s1] obtain s' where
    "for_each ids (\<lambda>u. call (AddUserToProject u p) (f u)) ?s1 = (Inr (), s')"
    "calls s' = calls ?s1 @ map (\<lambda>u. AddUserToProject u p) ids" by blast
  with call_eq [of "f u" s r1 w1 "AddUserToProject u p", OF f] r1 show ?case
    by (simp add: for_each_Cons del: for_each.simps)
qed

lemma object_keys_distinct: "distinct (object_keys ks)"
  by (auto simp: object_keys_def Let_def)

lemma object_keys_set: "set (object_keys ks) = set ks"
  by (auto simp: object_keys_def Let_def)

lemma addUsersToProject_calls:
  assumes "addUsersToProject api cfg ids s = (r, s')"
  shows "\<exists>n \<le> length ids.
           calls s' = calls s @ map (\<lambda>u. AddUserToProject u (openProjectId cfg)) (take n ids)
           \<and> (r = Inr () \<longrightarrow> n = length ids)"
  using assms unfolding addUsersToProject_def by (rule for_each_grants)

lemma addUsersToProject_succeeds:
  assumes "\<forall>u w. fst (addUserToProject api u (openProjectId cfg) w) = Inr ()"
  shows "\<exists>s'. addUsersToProject api cfg ids s = (Inr (), s')
           \<and> calls s' = calls s @ map (\<lambda>u. AddUserToProject u (openProjectId cfg)) ids"
  unfolding addUsersToProject_def
  using for_each_grants_succeed [of "\<lambda>u. addUserToProject api u (openProjectId cfg)"] assms
  by simp

lemma creations_bounded:
  "length (filter is_creation (calls (snd (createWithRemediation api cfg p a r s))))
   \<le> length (filter is_creation (calls s)) + 2"
proof -
  obtain res s' where run: "createWithRemediation api cfg p a r s = (res, s')"
    by (cases "createWithRemediation api cfg p a r s")
  from run have "length (filter is_creation (calls s')) \<le> length (filter is_creation (calls s)) + 2"
    by (auto simp: createWithRemediation_def try_catch_def and_then_def call_def lift_def
          console_log_def throw_def ret_def Let_def filter_creation_grants
        split: prod.splits sum.splits if_splits dest!: addUsersToProject_calls)
  with run show ?thesis by simp
qed

lemma watcher_additions_bounded:
  "length (filter is_watcher_addition (calls (snd (addWatcherWithRemediation api cfg n u s))))
   \<le> length (filter is_watcher_addition (calls s)) + 2"
proof -
  obtain res s' where run: "addWatcherWithRemediation api cfg n u s = (res, s')"
    by (cases "addWatcherWithRemediation api cfg n u s")
  from run have "length (filter is_watcher_addition (calls s'))
      \<le> length (filter is_watcher_addition (calls s)) + 2"
    by (auto simp: addWatcherWithRemediation_def try_catch_def and_then_def call_def lift_def
          console_log_def throw_def ret_def
        split: prod.splits sum.splits if_splits)
  with run show ?thesis by simp
qed

lemma always_fails_remediablyD:
  assumes "always_fails_remediably f names"
  obtains e w' attrs where "f w = (Inl e, w')" "failing_attributes e = Inr attrs"
    "\<exists>n \<in> set names. array_includes attrs n"
proof -
  obtain r w' where f: "f w = (r, w')" by (cases "f w")
  with assms have "case r of Inl e \<Rightarrow> remediable names e | Inr x \<Rightarrow> False"
    unfolding always_fails_remediably_def by (metis fst_conv)
  then obtain e where "r = Inl e" "remediable names e" by (cases r) auto
  with f that show ?thesis
    by (auto simp: remediable_def split: sum.splits)
qed

lemma createWithRemediation_always_failing:
  assumes fails: "always_fails_remediably (createWorkPackage api (openProjectId cfg) p)
                    [''assignee'', ''responsible'']"
    and granted: "\<forall>u w. fst (addUserToProject api u (openProjectId cfg) w) = Inr ()"
  shows "\<exists>e. fst (createWithRemediation api cfg p a r s) = Inl e"
    and "calls (snd (createWithRemediation api cfg p a r s)) =
           calls s @ CreateWorkPackage (openProjectId cfg) p
             # map (\<lambda>u. AddUserToProject u (openProjectId cfg)) (object_keys [r, a])
             @ [CreateWorkPackage (openProjectId cfg) p]"
proof -
  let ?c = "CreateWorkPackage (openProjectId cfg) p"
  let ?ids = "object_keys [r, a]"
  from fails obtain e w1 attrs where
    first: "createWorkPackage api (openProjectId cfg) p (world s) = (Inl e, w1)"
    and attrs: "failing_attributes e = Inr attrs"
    and inc: "array_includes attrs ''assignee'' \<or> array_includes attrs ''responsible''"
    by (rule always_fails_remediablyD [where w = "world s"]) auto
  let ?s1 = "s\<lparr>world := w1, calls := calls s @ [?c], console := console s @ [AddingUsers ?ids]\<rparr>"
  from addUsersToProject_succeeds [OF granted, of ?ids ?s1] obtain s2 where
    grant: "addUsersToProject api cfg ?ids ?s1 = (Inr (), s2)"
    and calls2: "calls s2 = calls ?s1 @ map (\<lambda>u. AddUserToProject u (openProjectId cfg)) ?ids"
    by blast
  from fails obtain e2 w3 attrs2 where
    second: "createWorkPackage api (openProjectId cfg) p (world s2) = (Inl e2, w3)"
    by (rule always_fails_remediablyD [where w = "world s2"])
  have run: "createWithRemediation api cfg p a r s =
      (Inl e2, s2\<lparr>console := console s2 @ [RetryingCreate], world := w3, calls := calls s2 @ [?c]\<rparr>)"
    using first attrs inc grant second
    by (simp add: createWithRemediation_def try_catch_def and_then_def call_def lift_def
          console_log_def Let_def)
  from run show "\<exists>e. fst (createWithRemediation api cfg p a r s) = Inl e" by simp
  from run calls2 show "calls (snd (createWithRemediation api cfg p a r s)) =
           calls s @ ?c # map (\<lambda>u. AddUserToProject u (openProjectId cfg)) ?ids @ [?c]"
    by simp
qed

lemma addWatcherWithRemediation_always_failing:
  assumes fails: "always_fails_remediably (addWatcher api n u) [''user'']"
    and granted: "\<forall>u w. fst (addUserToProject api u (openProjectId cfg) w) = Inr ()"
  shows "\<exists>e. fst (addWatcherWithRemediation api cfg n u s) = Inl e"
    and "calls (snd (addWatcherWithRemediation api cfg n u s)) =
           calls s @ [AddWatcher n u, AddUserToProject (Some u) (openProjectId cfg), AddWatcher n u]"
proof -
  from fails obtain e w1 attrs where
    first: "addWatcher api n u (world s) = (Inl e, w1)"
    and attrs: "failing_attributes e = Inr attrs"
    and inc: "array_includes attrs ''user''"
    by (rule always_fails_remediablyD [where w = "world s"]) auto
  obtain r2 w2 where g: "addUserToProject api (Some u) (openProjectId cfg) w1 = (r2, w2)"
    by (cases "addUserToProject api (Some u) (openProjectId cfg) w1")
  with granted have r2: "r2 = Inr ()" by (metis fst_conv)
  from fails obtain e2 w3 attrs2 where
    second: "addWatcher api n u w2 = (Inl e2, w3)"
    by (rule always_fails_remediablyD [where w = w2])
  have run: "addWatcherWithRemediation api cfg n u s =
      (Inl e2, s\<lparr>console := console s @ [AddingUser u (openProjectId cfg), RetryingWatcher],
                  world := w3,
                  calls := calls s @ [AddWatcher n u, AddUserToProject (Some u) (openProjectId cfg),
                                      AddWatcher n u]\<rparr>)"
    using first attrs inc g r2 second
    by (simp add: addWatcherWithRemediation_def try_catch_def and_then_def call_def lift_def
          console_log_def)
  from run show "\<exists>e. fst (addWatcherWithRemediation api cfg n u s) = Inl e" by simp
  from run show "calls (snd (addWatcherWithRemediation api cfg n u s)) =
           calls s @ [AddWatcher n u, AddUserToProject (Some u) (openProjectId cfg), AddWatcher n u]"
    by simp
qed

lemmas classifier_defs =
  failing_attributes_def failing_attribute_def array_includes_def getErrors.simps
  response_data_def strict_data_def wrap_data_def rejected_def violation_def multiple_errors_def
  error_envelope_def MultipleErrors_def PropertyConstraintViolation_def

text \<open>
  C2, as amended. Creating a work package and adding a watcher each invoke their
  operation at most twice. When the operation always fails with a remediable error (and
  the grants succeed), it is invoked exactly twice and the second failure is final. In
  between, the creation grants membership once to each distinct identity among the
  assignee and the responsible of the work package, both of them, whichever attribute
  failed; the addition of a watcher grants membership once, to the watcher.
\<close>

theorem remediation_retries_once:
  "length (filter is_creation (calls (snd (createWithRemediation api cfg p a r s))))
     \<le> length (filter is_creation (calls s)) + 2
   \<and> length (filter is_watcher_addition (calls (snd (addWatcherWithRemediation api cfg n u s))))
     \<le> length (filter is_watcher_addition (calls s)) + 2
   \<and> (always_fails_remediably (createWorkPackage api (openProjectId cfg) p)
         [''assignee'', ''responsible'']
       \<and> (\<forall>u w. fst (addUserToProject api u (openProjectId cfg) w) = Inr ())
       \<and> a = Some x \<and> r = Some y
      \<longrightarrow> (\<exists>e. fst (createWithRemediation api cfg p a r s) = Inl e)
          \<and> filter is_creation (calls (snd (createWithRemediation api cfg p a r s)))
              = filter is_creation (calls s)
                @ [CreateWorkPackage (openProjectId cfg) p, CreateWorkPackage (openProjectId cfg) p]
          \<and> grants (calls (snd (createWithRemediation api cfg p a r s)))
              = grants (calls s) @ object_keys [Some y, Some x]
          \<and> distinct (object_keys [Some y, Some x])
          \<and> set (object_keys [Some y, Some x]) = {Some x, Some y})
   \<and> (always_fails_remediably (addWatcher api n u) [''user'']
       \<and> (\<forall>u w. fst (addUserToProject api u (openProjectId cfg) w) = Inr ())
      \<longrightarrow> (\<exists>e. fst (addWatcherWithRemediation api cfg n u s) = Inl e)
          \<and> calls (snd (addWatcherWithRemediation api cfg n u s))
              = calls s @ [AddWatcher n u, AddUserToProject (Some u) (openProjectId cfg),
                           AddWatcher n u])"
proof -
  have creation: "(\<exists>e. fst (createWithRemediation api cfg p a r s) = Inl e)
          \<and> filter is_creation (calls (snd (createWithRemediation api cfg p a r s)))
              = filter is_creation (calls s)
                @ [CreateWorkPackage (openProjectId cfg) p, CreateWorkPackage (openProjectId cfg) p]
          \<and> grants (calls (snd (createWithRemediation api cfg p a r s)))
              = grants (calls s) @ object_keys [Some y, Some x]
          \<and> distinct (object_keys [Some y, Some x])
          \<and> set (object_keys [Some y, Some x]) = {Some x, Some y}"
    if "always_fails_remediably (createWorkPackage api (openProjectId cfg) p)
         [''assignee'', ''responsible'']"
      "\<forall>u w. fst (addUserToProject api u (openProjectId cfg) w) = Inr ()"
      "a = Some x" "r = Some y"
    using createWithRemediation_always_failing [OF that(1,2), of a r s] that(3,4)
    by (auto simp: grants_append grants_map filter_creation_grants object_keys_distinct
          object_keys_set)
  have watcher: "(\<exists>e. fst (addWatcherWithRemediation api cfg n u s) = Inl e)
          \<and> calls (snd (addWatcherWithRemediation api cfg n u s))
              = calls s @ [AddWatcher n u, AddUserToProject (Some u) (openProjectId cfg),
                           AddWatcher n u]"
    if "always_fails_remediably (addWatcher api n u) [''user'']"
      "\<forall>u w. fst (addUserToProject api u (openProjectId cfg) w) = Inr ()"
    using addWatcherWithRemediation_always_failing [OF that, of s] by simp
  from creation watcher creations_bounded [of api cfg p a r s]
    watcher_additions_bounded [of api cfg n u s]
  show ?thesis by blast
qed

theorem remediation_retries_once_witness:
  "always_fails_remediably
     (createWorkPackage (rejecting_api (violation ''assignee'')) 3 sample_payload)
     [''assignee'', ''responsible'']
   \<and> always_fails_remediably (addWatcher (rejecting_api (violation ''user'')) 106 (UserId 5)) [''user'']
   \<and> calls (snd (createWithRemediation (rejecting_api (violation ''assignee''))
                  (sample_settings False Map.empty) sample_payload (Some (UserId 5)) (Some (UserId 7)) (start ())))
      = [CreateWorkPackage 3 sample_payload, AddUserToProject (Some (UserId 5)) 3,
         AddUserToProject (Some (UserId 7)) 3, CreateWorkPackage 3 sample_payload]
   \<and> calls (snd (addWatcherWithRemediation (rejecting_api (violation ''user''))
                  (sample_settings False Map.empty) 106 (UserId 5) (start ())))
      = [AddWatcher 106 (UserId 5), AddUserToProject (Some (UserId 5)) 3, AddWatcher 106 (UserId 5)]"
proof -
  let ?cfg = "sample_settings False Map.empty"
  have pid: "openProjectId ?cfg = 3" by (simp add: sample_settings_def)
  have c: "always_fails_remediably
     (createWorkPackage (rejecting_api (violation ''assignee'')) (openProjectId ?cfg) sample_payload)
     [''assignee'', ''responsible'']"
    by (simp add: always_fails_remediably_def remediable_def rejecting_api_def stub_def
          classifier_defs js_def)
  have w: "always_fails_remediably (addWatcher (rejecting_api (violation ''user'')) 106 (UserId 5)) [''user'']"
    by (simp add: always_fails_remediably_def remediable_def rejecting_api_def stub_def
          classifier_defs js_def)
  have g: "\<forall>u w. fst (addUserToProject (rejecting_api d) u (openProjectId ?cfg) w) = Inr ()" for d
    by (simp add: rejecting_api_def stub_def)
  from remediation_retries_once
    [of "rejecting_api (violation ''assignee'')" ?cfg sample_payload "Some (UserId 5)" "Some (UserId 7)" "start ()"
        0 "UserId 0" "UserId 5" "UserId 7"]
    c g [of "violation ''assignee''"]
  have "grants (calls (snd (createWithRemediation (rejecting_api (violation ''assignee''))
            ?cfg sample_payload (Some (UserId 5)) (Some (UserId 7)) (start ()))))
        = grants (calls (start ())) @ object_keys [Some (UserId 7), Some (UserId 5)]"
    by blast
  moreover
  from remediation_retries_once
    [of "rejecting_api (violation ''user'')" ?cfg sample_payload "Some (UserId 5)" "Some (UserId 7)" "start ()"
        106 "UserId 5" "UserId 5" "UserId 7"]
    w g [of "violation ''user''"]
  have "calls (snd (addWatcherWithRemediation (rejecting_api (violation ''user'')) ?cfg 106 (UserId 5) (start ())))
        = calls (start ()) @ [AddWatcher 106 (UserId 5), AddUserToProject (Some (UserId 5)) (openProjectId ?cfg),
                              AddWatcher 106 (UserId 5)]"
    by blast
  moreover
  have "calls (snd (createWithRemediation (rejecting_api (violation ''assignee''))
                  ?cfg sample_payload (Some (UserId 5)) (Some (UserId 7)) (start ())))
      = [CreateWorkPackage 3 sample_payload, AddUserToProject (Some (UserId 5)) 3,
         AddUserToProject (Some (UserId 7)) 3, CreateWorkPackage 3 sample_payload]"
    by (simp add: engine_defs rejecting_api_def stub_def sample_settings_def classifier_defs
          js_def object_keys_def)
  ultimately show ?thesis using c w pid by (simp add: start_def)
qed

text \<open>
  The claim as stated fails: the only failing attribute is \<open>assignee\<close>, which refers to
  user 5, and yet membership is granted to user 7, the responsible, as well.
\<close>

theorem grants_beyond_failing_attributes_counterexample:
  "failing_attributes (rejected (violation ''assignee'')) = Inr [JStr (js ''assignee'')]
   \<and> spec_failing_identities [JStr (js ''assignee'')] (Some (UserId 5)) (Some (UserId 7)) = [Some (UserId 5)]
   \<and> grants (calls (snd (createWithRemediation (rejecting_api (violation ''assignee''))
                  (sample_settings False Map.empty) sample_payload (Some (UserId 5)) (Some (UserId 7)) (start ()))))
      = [Some (UserId 5), Some (UserId 7)]"
  by (simp add: engine_defs rejecting_api_def stub_def sample_settings_def classifier_defs
        js_def object_keys_def spec_failing_identities_def)

lemma rethrown_when_not_remediable:
  assumes "createWorkPackage api (openProjectId cfg) p (world s) = (Inl e, w1)"
    and "failing_attributes e = Inr attrs"
    and "\<not> array_includes attrs ''assignee''" "\<not> array_includes attrs ''responsible''"
  shows "createWithRemediation api cfg p a r s =
           (Inl e, s\<lparr>world := w1, calls := calls s @ [CreateWorkPackage (openProjectId cfg) p]\<rparr>)"
  using assms
  by (simp add: createWithRemediation_def try_catch_def and_then_def call_def lift_def throw_def)

text \<open>
  C6. The claim: a failure that is not remediable is thrown again as it is. When the
  failure is classified, the code does so (lemma \<open>rethrown_when_not_remediable\<close>). But the
  classification itself throws on an error body without \<open>_embedded\<close> (see C3), and then a
  \<open>TypeError\<close> reaches the caller in place of the failure of the operation. No membership
  is granted.
\<close>

theorem failure_replaced_by_TypeError:
  "createWithRemediation (rejecting_api missing_permission) (sample_settings False Map.empty)
     sample_payload (Some (UserId 5)) (Some (UserId 7)) (start ())
   = (Inl TypeError, (start ())\<lparr>calls := [CreateWorkPackage 3 sample_payload]\<rparr>)
   \<and> fst (createWorkPackage (rejecting_api missing_permission) 3 sample_payload ())
       = Inl (rejected missing_permission)
   \<and> fst (addWatcherWithRemediation (rejecting_api missing_permission)
            (sample_settings False Map.empty) 106 (UserId 5) (start ())) = Inl TypeError"
  by (simp add: engine_defs rejecting_api_def stub_def sample_settings_def classifier_defs
        js_def missing_permission_def)

section \<open>Properties of the rendering\<close>

lemma sequence_e_map_Inr:
  "\<forall>x \<in> set xs. f x = Inr (g x) \<Longrightarrow> sequence_e (map f xs) = Inr (map g xs)"
  by (induction xs) auto

lemma intercalate_Nil: "intercalate [] xs = concat xs"
  by (induction "[] :: 'a list" xs rule: intercalate.induct) auto

lemma is_object_get_prop: "is_object v \<Longrightarrow> get_prop v n = Inr (opt_prop v n)"
  by (cases v) auto

lemma structured_inline_text:
  assumes "structured_inline c"
  shows "get_prop c (js ''text'') = Inr (opt_prop c (js ''text''))"
    and "(if nullish (opt_prop c (js ''text'')) then Inr [] else to_string (opt_prop c (js ''text'')))
         = Inr (spec_inline_text c)"
  using assms
  by (auto simp: structured_inline_def spec_inline_text_def is_object_get_prop split: jsval.splits)

lemma block_text_structured:
  assumes "structured_block b"
  shows "block_text b = Inr (spec_block_text b)"
proof (cases "opt_prop b (js ''content'')")
  case (JArr cs)
  with assms have cs: "\<forall>c \<in> set cs. structured_inline c"
    by (simp add: structured_block_def list_all_iff)
  have texts: "sequence_e (map (\<lambda>c. get_prop c (js ''text'')) cs)
               = Inr (map (\<lambda>c. opt_prop c (js ''text'')) cs)"
    by (rule sequence_e_map_Inr) (simp add: cs structured_inline_text(1))
  have "sequence_e (map (\<lambda>x. if nullish x then Inr [] else to_string x)
                      (map (\<lambda>c. opt_prop c (js ''text'')) cs))
        = Inr (map spec_inline_text cs)"
    unfolding map_map comp_def
    by (rule sequence_e_map_Inr) (simp add: cs structured_inline_text(2))
  then have "join [] (map (\<lambda>c. opt_prop c (js ''text'')) cs) = Inr (concat (map spec_inline_text cs))"
    by (simp add: join_def intercalate_Nil)
  with assms JArr texts show ?thesis
    by (simp add: block_text_def spec_block_text_def structured_block_def is_object_get_prop)
qed (use assms in \<open>auto simp: block_text_def spec_block_text_def structured_block_def is_object_get_prop\<close>)

lemma convert_structured:
  assumes "structured_document d"
  shows "convertAtlassianDocumentToText d = spec_render d"
proof -
  from assms obtain bs where bs: "opt_prop d (js ''content'') = JArr bs"
    and blocks: "\<forall>b \<in> set bs. structured_block b" and obj: "is_object d"
    by (auto simp: structured_document_def list_all_iff split: jsval.splits)
  have "sequence_e (map block_text bs) = Inr (map spec_block_text bs)"
    by (rule sequence_e_map_Inr) (simp add: blocks block_text_structured)
  with bs obj have "walk_document d = Inr (spec_render d)"
    by (simp add: walk_document_def spec_render_def is_object_get_prop)
  with obj show ?thesis
    by (cases d) (simp_all add: convertAtlassianDocumentToText_def)
qed

lemma convert_failure:
  assumes "walk_document d = Inl t" "\<forall>s. d \<noteq> JStr s"
  shows "convertAtlassianDocumentToText d = []"
  using assms by (cases d) (auto simp: convertAtlassianDocumentToText_def)

lemma utf8_roundtrip_well_formed: "well_formed s \<Longrightarrow> utf8_roundtrip s = s"
  by (induction s rule: utf8_roundtrip.induct) (auto split: if_splits)

lemma buildPayload_description:
  assumes "buildPayload api cfg i a r s = (Inr p, s')"
  shows "description_raw p = utf8_roundtrip (convertAtlassianDocumentToText (description i))"
  using assms
  by (auto simp: buildPayload_def Let_def and_then_def call_def ret_def
      split: prod.splits sum.splits)

lemmas render_defs =
  convertAtlassianDocumentToText_def walk_document_def block_text_def join_def trim_def
  is_space_def spec_render_def spec_block_text_def spec_inline_text_def
  structured_document_def structured_block_def structured_inline_def
  text_node_def paragraph_node_def is_high_surrogate_def is_low_surrogate_def

text \<open>
  C8, as amended. For a structured document (an object whose \<open>content\<close> is an array of
  blocks, each with an array of inline nodes or none, each of which has a text or none)
  the rendering is the text runs of each block concatenated, the blocks joined with one
  newline, the whole trimmed. A \<open>null\<close> or absent document renders to the empty string, and
  so does a document on which the walk throws. The description of the payload is that
  rendering encoded as UTF-8 and decoded again: the rendering itself when it is
  well-formed UTF-16, and otherwise with each unpaired surrogate replaced by U+FFFD.
\<close>

theorem description_is_rendered_text:
  "(structured_document (description i)
      \<longrightarrow> convertAtlassianDocumentToText (description i) = spec_render (description i))
   \<and> convertAtlassianDocumentToText JNull = []
   \<and> convertAtlassianDocumentToText JUndefined = []
   \<and> (walk_document d = Inl t \<and> (\<forall>s. d \<noteq> JStr s) \<longrightarrow> convertAtlassianDocumentToText d = [])
   \<and> (buildPayload api cfg i a r s = (Inr p, s')
      \<longrightarrow> description_raw p = utf8_roundtrip (convertAtlassianDocumentToText (description i))
          \<and> (well_formed (convertAtlassianDocumentToText (description i))
              \<longrightarrow> description_raw p = convertAtlassianDocumentToText (description i)))"
  using convert_structured [of "description i"] convert_failure [of d t]
    buildPayload_description [of api cfg i a r s p s']
    utf8_roundtrip_well_formed [of "convertAtlassianDocumentToText (description i)"]
  by (simp add: convertAtlassianDocumentToText_def)

theorem description_is_rendered_text_witness:
  "structured_document sample_document
   \<and> spec_render sample_document = js ''Hello there'' @ js [CHR 0x0A, CHR 0x0A] @ js ''world''
   \<and> walk_document (JObj [(js ''content'', JArr [JNull])]) = Inl TypeError
   \<and> convertAtlassianDocumentToText (JObj [(js ''content'', JArr [JNull])]) = []
   \<and> fst (buildPayload sample_api (sample_settings False Map.empty)
               ((sample_issue ''PROJ-1'' ''Task'')\<lparr>description := sample_document\<rparr>)
               None None (start ()))
      = Inr \<lparr>subject = js ''A summary'',
             description_raw = js ''Hello there'' @ js [CHR 0x0A, CHR 0x0A] @ js ''world'',
             type_link = 1, status_link = 1, priority_link = 1, project_link = 3,
             customField = js ''PROJ-1'', assignee_link = None, responsible_link = None\<rparr>"
proof -
  let ?i = "(sample_issue ''PROJ-1'' ''Task'')\<lparr>description := sample_document\<rparr>"
  let ?cfg = "sample_settings False Map.empty"
  let ?text = "js ''Hello there'' @ js [CHR 0x0A, CHR 0x0A] @ js ''world''"
  let ?run = "buildPayload sample_api ?cfg ?i None None (start ())"
  let ?p = "\<lparr>subject = js ''A summary'',
             description_raw = utf8_roundtrip (convertAtlassianDocumentToText sample_document),
             type_link = 1, status_link = 1, priority_link = 1, project_link = 3,
             customField = js ''PROJ-1'', assignee_link = None, responsible_link = None\<rparr>"
  have structured: "structured_document (description ?i)"
    by (simp add: sample_issue_def sample_document_def render_defs js_def)
  have rendered: "spec_render sample_document = ?text"
    by (simp add: sample_document_def render_defs js_def)
  have thrown: "walk_document (JObj [(js ''content'', JArr [JNull])]) = Inl TypeError
      \<and> (\<forall>s. JObj [(js ''content'', JArr [JNull])] \<noteq> JStr s)"
    by (simp add: render_defs)
  have built: "?run = (Inr ?p, snd ?run)"
    by (simp add: buildPayload_def and_then_def call_def ret_def Let_def sample_defs)
  have fine: "well_formed ?text"
    by (simp add: js_def is_high_surrogate_def is_low_surrogate_def)
  note claim = description_is_rendered_text
    [of ?i "JObj [(js ''content'', JArr [JNull])]" TypeError sample_api ?cfg None None "start ()"
        ?p "snd ?run"]
  have doc: "description ?i = sample_document"
    by (simp add: sample_issue_def)
  from claim structured have "convertAtlassianDocumentToText (description ?i) = spec_render (description ?i)"
    by blast
  with rendered doc have conv: "convertAtlassianDocumentToText sample_document = ?text"
    by simp
  from claim thrown have failed: "convertAtlassianDocumentToText (JObj [(js ''content'', JArr [JNull])]) = []"
    by blast
  from claim built have "well_formed (convertAtlassianDocumentToText (description ?i))
      \<longrightarrow> description_raw ?p = convertAtlassianDocumentToText (description ?i)"
    by blast
  with fine doc conv have "description_raw ?p = ?text"
    by simp
  then have "?p = \<lparr>subject = js ''A summary'', description_raw = ?text,
             type_link = 1, status_link = 1, priority_link = 1, project_link = 3,
             customField = js ''PROJ-1'', assignee_link = None, responsible_link = None\<rparr>"
    by simp
  with built have "fst ?run = Inr \<lparr>subject = js ''A summary'', description_raw = ?text,
             type_link = 1, status_link = 1, priority_link = 1, project_link = 3,
             customField = js ''PROJ-1'', assignee_link = None, responsible_link = None\<rparr>"
    by (metis fst_conv)
  with structured doc rendered thrown failed show ?thesis
    by simp
qed

text \<open>
  The claim as stated fails: a text run that holds an unpaired surrogate is rendered as it
  is, but the description carries U+FFFD in its place.
\<close>

theorem description_replaces_unpaired_surrogate_counterexample:
  "structured_document surrogate_document
   \<and> spec_render surrogate_document = [0xD800]
   \<and> convertAtlassianDocumentToText surrogate_document = [0xD800]
   \<and> map_sum id description_raw
        (fst (buildPayload sample_api (sample_settings False Map.empty)
               ((sample_issue ''PROJ-1'' ''Task'')\<lparr>description := surrogate_document\<rparr>)
               None None (start ())))
      = Inr [0xFFFD]"
  by (simp add: surrogate_document_def render_defs js_def buildPayload_def and_then_def
        call_def ret_def Let_def sample_defs)

end
